theory Spec2Isabelle
  imports Complex_Main "HOL-Library.Multiset"
begin

section \<open>Python values used by \<open>segtat/explorer.py\<close>\<close>

text \<open>
  Exceptions are values. Only the exception classes that \<open>explorer.py\<close> or the library
  calls it makes can raise are listed; a \<open>ValueError\<close>, \<open>AssertionError\<close> and
  \<open>KeyError\<close> carry their message or key, so that two raises of the same class can be
  told apart.
\<close>

datatype error =
    ValueError string
  | AssertionError string
  | KeyError string
  | UnboundLocalError string
  | FileNotFoundError string
  | IndexError
  | TypeError
  | AxisError

text \<open>
  A statement that may raise, followed by the rest of the block: the first exception
  raised ends the call.
\<close>

definition bindE :: "error + 'a \<Rightarrow> ('a \<Rightarrow> error + 'b) \<Rightarrow> error + 'b" where
  "bindE m f = (case m of Inl e \<Rightarrow> Inl e | Inr v \<Rightarrow> f v)"

text \<open>
  Python floats are modelled by rationals: the decimal literal \<open>0.1\<close> is \<open>1/10\<close>, and
  the rounding error of binary floating point is not part of the model.
  \<open>round(x)\<close> with one argument rounds half to even and returns an \<open>int\<close>.
\<close>

definition py_round :: "rat \<Rightarrow> int" where
  "py_round q =
     (let f = \<lfloor>q\<rfloor>; d = q - of_int f
      in if d < 1/2 then f
         else if 1/2 < d then f + 1
         else if even f then f else f + 1)"

text \<open>
  \<open>xs[lo:hi]\<close> on a Python list: a negative bound counts from the end, both bounds are
  clipped to the list, and an empty range gives the empty list.
\<close>

definition py_slice :: "'a list \<Rightarrow> int \<Rightarrow> int \<Rightarrow> 'a list" where
  "py_slice xs lo hi =
     (let n = int (length xs);
          clip = (\<lambda>i. if i < 0 then max (i + n) 0 else min i n)
      in take (nat (clip hi - clip lo)) (drop (nat (clip lo)) xs))"

section \<open>Arrays\<close>

text \<open>
  A numpy array or torch tensor is its shape and its elements in row-major order. The
  element type is a parameter: dtype promotion is not modelled.
\<close>

record 'a ndarray =
  shape :: "nat list"
  buf :: "'a list"

definition wf_array :: "'a ndarray \<Rightarrow> bool" where
  "wf_array a = (length (buf a) = prod_list (shape a))"

text \<open>The \<open>i\<close>-th block of \<open>sz\<close> consecutive elements of a buffer.\<close>

definition chunk :: "nat \<Rightarrow> nat \<Rightarrow> 'a list \<Rightarrow> 'a list" where
  "chunk sz i xs = take sz (drop (i * sz) xs)"

text \<open>\<open>len(a)\<close>: the first dimension; a zero-dimensional array has no length.\<close>

definition np_len :: "'a ndarray \<Rightarrow> error + nat" where
  "np_len a = (case shape a of [] \<Rightarrow> Inl TypeError | n # rest \<Rightarrow> Inr n)"

text \<open>\<open>a[idx]\<close> with \<open>idx\<close> a Python list of non-negative indices: the rows named, in
  the order of \<open>idx\<close>.\<close>

definition np_take :: "'a ndarray \<Rightarrow> nat list \<Rightarrow> error + 'a ndarray" where
  "np_take a idx =
     (case shape a of
        [] \<Rightarrow> Inl IndexError
      | n # rest \<Rightarrow>
          if list_all (\<lambda>i. i < n) idx
          then Inr \<lparr>shape = length idx # rest,
                    buf = concat (map (\<lambda>i. chunk (prod_list rest) i (buf a)) idx)\<rparr>
          else Inl IndexError)"

section \<open>Datasets and the random split\<close>

text \<open>
  \<open>TensorDataset(x, y)\<close> asserts that both tensors have the same first dimension;
  \<open>tensor.size(0)\<close> of a zero-dimensional tensor raises \<open>IndexError\<close>.
\<close>

type_synonym 'a dataset = "'a ndarray \<times> 'a ndarray"

definition TensorDataset :: "'a ndarray \<Rightarrow> 'a ndarray \<Rightarrow> error + 'a dataset" where
  "TensorDataset x y =
     (case shape x of
        [] \<Rightarrow> Inl IndexError
      | n # sx \<Rightarrow>
         (case shape y of
            [] \<Rightarrow> Inl IndexError
          | m # sy \<Rightarrow>
              if n = m then Inr (x, y)
              else Inl (AssertionError ''Size mismatch between tensors'')))"

text \<open>\<open>len(dataset)\<close> is the first dimension of the first tensor.\<close>

definition ds_len :: "'a dataset \<Rightarrow> nat" where
  "ds_len d = (case shape (fst d) of [] \<Rightarrow> 0 | n # rest \<Rightarrow> n)"

text \<open>\<open>dataset[idx]\<close>: every tensor of the dataset indexed by the same list.\<close>

definition ds_getitem :: "'a dataset \<Rightarrow> nat list \<Rightarrow> error + ('a ndarray \<times> 'a ndarray)" where
  "ds_getitem d idx =
     bindE (np_take (fst d) idx) (\<lambda>fs.
     bindE (np_take (snd d) idx) (\<lambda>ts. Inr (fs, ts)))"

text \<open>
  \<open>torch.utils.data.random_split(dataset, lengths)\<close> is library code. It raises when the
  lengths do not sum to the dataset's length, draws \<open>randperm(sum(lengths))\<close> and cuts
  the permutation at the running sums of \<open>lengths\<close>. The permutation drawn is the
  argument \<open>perm\<close>; each subset is returned as its index list.
\<close>

fun subsets :: "nat list \<Rightarrow> int \<Rightarrow> int list \<Rightarrow> nat list list" where
  "subsets perm off [] = []"
| "subsets perm off (l # ls) = py_slice perm off (off + l) # subsets perm (off + l) ls"

definition random_split :: "nat \<Rightarrow> int list \<Rightarrow> nat list \<Rightarrow> error + nat list list" where
  "random_split n lengths perm =
     (if sum_list lengths \<noteq> int n
      then Inl (ValueError ''Sum of input lengths does not equal the length of the input dataset!'')
      else Inr (subsets perm 0 lengths))"

section \<open>\<open>ModelExplorer.train_test\<close>\<close>

definition train_size_message :: string where
  "train_size_message = ''train_size value must be value between 0.1 and 0.99''"

text \<open>\<open>train, test = ...\<close>: unpacking a list into two names.\<close>

definition unpack2 :: "'b list \<Rightarrow> error + ('b \<times> 'b)" where
  "unpack2 xs =
     (case xs of
        [a, b] \<Rightarrow> Inr (a, b)
      | _ \<Rightarrow> Inl (ValueError ''wrong number of values to unpack''))"

definition train_test ::
  "'a ndarray \<Rightarrow> 'a ndarray \<Rightarrow> rat \<Rightarrow> nat list \<Rightarrow> error + ('a dataset \<times> 'a dataset)" where
  "train_test x_train y_train train_size perm =
     (if train_size < 1/10 \<or> train_size > 99/100
      then Inl (ValueError train_size_message)
      else
        bindE (TensorDataset x_train y_train) (\<lambda>dataset.
        let train_ratio = py_round (of_nat (ds_len dataset) * train_size);
            test_ratio = int (ds_len dataset) - train_ratio
        in
        bindE (random_split (ds_len dataset) [train_ratio, test_ratio] perm) (\<lambda>parts.
        bindE (unpack2 parts) (\<lambda>(train, test).
        bindE (ds_getitem dataset train) (\<lambda>(train_features, train_target).
        bindE (ds_getitem dataset test) (\<lambda>(test_features, test_target).
        bindE (TensorDataset train_features train_target) (\<lambda>train_dataset.
        bindE (TensorDataset test_features test_target) (\<lambda>test_dataset.
        Inr (train_dataset, test_dataset)))))))))"

section \<open>\<open>ModelExplorer.fit\<close>\<close>

text \<open>\<open>os.path.join(a, b)\<close> on a POSIX system, for two components.\<close>

definition os_path_join :: "string \<Rightarrow> string \<Rightarrow> string" where
  "os_path_join a b =
     (if b \<noteq> [] \<and> hd b = CHR ''/'' then b
      else if a = [] \<or> last a = CHR ''/'' then a @ b
      else a @ ''/'' @ b)"

text \<open>
  A \<open>for\<close> loop over a list of indices whose body may raise: the state after the body
  is the state of the next iteration, and an exception ends the loop.
\<close>

fun for_loop :: "('i \<Rightarrow> 's \<Rightarrow> error + 's) \<Rightarrow> 'i list \<Rightarrow> 's \<Rightarrow> error + 's" where
  "for_loop body [] st = Inr st"
| "for_loop body (i # rest) st = bindE (body i st) (for_loop body rest)"

text \<open>\<open>params[key]\<close> on the keyword dictionary: a missing key raises \<open>KeyError\<close>.\<close>

definition lookup :: "string \<Rightarrow> 'v option \<Rightarrow> error + 'v" where
  "lookup key v = (case v of None \<Rightarrow> Inl (KeyError key) | Some x \<Rightarrow> Inr x)"

text \<open>
  The optimizer is its list of parameter groups, each a dictionary from the name of a
  hyperparameter to its value. \<open>optimizer.param_groups[0]['lr'] = v\<close> raises
  \<open>IndexError\<close> when there is no group and otherwise stores the value under \<open>'lr'\<close>.
\<close>

record optimizer =
  param_groups :: "(string \<rightharpoonup> rat) list"

definition set_first_lr :: "optimizer \<Rightarrow> rat \<Rightarrow> error + optimizer" where
  "set_first_lr opt v =
     (case param_groups opt of
        [] \<Rightarrow> Inl IndexError
      | g # gs \<Rightarrow> Inr (opt\<lparr>param_groups := g(''lr'' \<mapsto> v) # gs\<rparr>))"

text \<open>
  The keyword arguments of \<open>fit\<close>. The batch size and the metric set are only handed to
  the library, so their types are parameters.
\<close>

record ('b, 'k) fit_params =
  p_batch_size :: "'b option"
  p_epochs :: "int option"
  p_optimizer :: "optimizer option"
  p_metrics :: "'k option"

text \<open>
  What the epoch loop changes: the model (trained in place), the optimizer, and the
  files written, kept as the list of \<open>torch.save(model, path)\<close> calls in the order they
  were made, each with the model as it was when saved.
\<close>

record 'm fit_state =
  model :: 'm
  optimizer :: optimizer
  saved :: "(string \<times> 'm) list"

text \<open>
  One iteration of the epoch loop. \<open>train_run\<close> and \<open>valid_run\<close> stand for
  \<open>train_epoch.run(train_loader)\<close> and \<open>valid_epoch.run(valid_loader)\<close> of the
  segmentation library: they change the model and read the optimizer, and write no
  hyperparameter of a parameter group. The \<open>print\<close> calls are left out.
\<close>

definition fit_epoch ::
  "(optimizer \<Rightarrow> 'm \<Rightarrow> 'm) \<Rightarrow> ('m \<Rightarrow> 'm) \<Rightarrow> int \<Rightarrow> string \<Rightarrow> int \<Rightarrow> 'm fit_state
     \<Rightarrow> error + 'm fit_state" where
  "fit_epoch train_run valid_run epochs path_prom_save i st =
     (let st1 = st\<lparr>model := valid_run (train_run (optimizer st) (model st))\<rparr>
      in bindE
           (if i = py_round (of_int epochs * (8/10))
            then bindE (set_first_lr (optimizer st1) (2/1000000))
                   (\<lambda>opt. Inr (st1\<lparr>optimizer := opt\<rparr>))
            else Inr st1)
           (\<lambda>st2.
              if i = 10 \<or> i = 20 \<or> i = 30 \<or> i = 40 \<or> i = 50
              then Inr (st2\<lparr>saved := saved st2 @ [(path_prom_save, model st2)]\<rparr>)
              else Inr st2))"

text \<open>
  \<open>fit\<close> itself. \<open>TrainEpoch_run metrics loader\<close> and \<open>ValidEpoch_run metrics loader\<close>
  are the two runners the library builds from the metric set; a loader is its dataset
  and, for the train loader, the batch size. \<open>perm\<close> is the permutation the 95/5 split
  draws and \<open>saved0\<close> the files written before the call. The result is the model
  returned and the state left behind.
\<close>

definition fit ::
  "('k \<Rightarrow> 'a dataset \<times> 'b \<Rightarrow> optimizer \<Rightarrow> 'm \<Rightarrow> 'm) \<Rightarrow> ('k \<Rightarrow> 'a dataset \<Rightarrow> 'm \<Rightarrow> 'm)
     \<Rightarrow> string \<Rightarrow> 'a dataset \<Rightarrow> 'm \<Rightarrow> ('b, 'k) fit_params \<Rightarrow> nat list \<Rightarrow> (string \<times> 'm) list
     \<Rightarrow> error + ('m \<times> 'm fit_state)" where
  "fit TrainEpoch_run ValidEpoch_run working_dir train model0 params perm saved0 =
     (let path_to_save = os_path_join working_dir ''best_model.pth'';
          path_prom_save = os_path_join working_dir ''prom.pth''
      in
      bindE (train_test (fst train) (snd train) (95/100) perm) (\<lambda>(train_dataset, valid_dataset).
      bindE (lookup ''batch_size'' (p_batch_size params)) (\<lambda>batch_size.
      bindE (lookup ''optimizer'' (p_optimizer params)) (\<lambda>opt.
      bindE (lookup ''metrics'' (p_metrics params)) (\<lambda>metrics.
      bindE (lookup ''epochs'' (p_epochs params)) (\<lambda>epochs.
      bindE (for_loop
               (fit_epoch (TrainEpoch_run metrics (train_dataset, batch_size))
                          (ValidEpoch_run metrics valid_dataset) epochs path_prom_save)
               [0..epochs - 1]
               \<lparr>model = model0, optimizer = opt, saved = saved0\<rparr>) (\<lambda>st.
      Inr (model st, st\<lparr>saved := saved st @ [(path_to_save, model st)]\<rparr>))))))))"

section \<open>\<open>ModelExplorer.validate\<close>\<close>

text \<open>\<open>a[i]\<close> for a non-negative index, \<open>unsqueeze(0)\<close> and \<open>squeeze()\<close>.\<close>

definition np_index :: "'a ndarray \<Rightarrow> nat \<Rightarrow> error + 'a ndarray" where
  "np_index a i =
     (case shape a of
        [] \<Rightarrow> Inl IndexError
      | n # rest \<Rightarrow>
          if i < n then Inr \<lparr>shape = rest, buf = chunk (prod_list rest) i (buf a)\<rparr>
          else Inl IndexError)"

definition unsqueeze0 :: "'a ndarray \<Rightarrow> 'a ndarray" where
  "unsqueeze0 a = \<lparr>shape = 1 # shape a, buf = buf a\<rparr>"

definition squeeze :: "'a ndarray \<Rightarrow> 'a ndarray" where
  "squeeze a = \<lparr>shape = filter (\<lambda>d. d \<noteq> 1) (shape a), buf = buf a\<rparr>"

text \<open>
  \<open>astype(np.uint8)\<close> on a float discards the fractional part. Where the integral part
  is not a value of \<open>uint8\<close> the result depends on the platform: it is \<open>None\<close> here.
\<close>

definition astype_uint8 :: "rat \<Rightarrow> nat option" where
  "astype_uint8 v =
     (if - 1 < v \<and> v < 256 then Some (if 0 \<le> v then nat \<lfloor>v\<rfloor> else 0) else None)"

text \<open>
  The two masked assignments \<open>pr_mask[pr_mask < threshold] = 0\<close> and
  \<open>pr_mask[pr_mask >= threshold] = 1\<close>, one after the other on the same array.
\<close>

definition assign_below :: "rat \<Rightarrow> rat ndarray \<Rightarrow> rat ndarray" where
  "assign_below t a = a\<lparr>buf := map (\<lambda>v. if v < t then 0 else v) (buf a)\<rparr>"

definition assign_at_least :: "rat \<Rightarrow> rat ndarray \<Rightarrow> rat ndarray" where
  "assign_at_least t a = a\<lparr>buf := map (\<lambda>v. if t \<le> v then 1 else v) (buf a)\<rparr>"

datatype image = Uint8 "nat option ndarray" | Float "rat ndarray"

text \<open>The branch on \<open>threshold\<close>, applied to the squeezed prediction.\<close>

definition binarize :: "rat option \<Rightarrow> rat ndarray \<Rightarrow> image" where
  "binarize threshold pr_mask =
     (case threshold of
        None \<Rightarrow> Uint8 \<lparr>shape = shape pr_mask, buf = map astype_uint8 (buf pr_mask)\<rparr>
      | Some t \<Rightarrow> Float (assign_at_least t (assign_below t pr_mask)))"

text \<open>
  \<open>torch.load(path)\<close>: the files are a map from paths to serialised models. The keyword
  arguments of \<open>validate\<close>: \<open>vis\<close> counts only when it is the value \<open>True\<close>.
\<close>

definition torch_load :: "(string \<rightharpoonup> 'm) \<Rightarrow> string \<Rightarrow> error + 'm" where
  "torch_load fs path =
     (case fs path of None \<Rightarrow> Inl (FileNotFoundError path) | Some m \<Rightarrow> Inr m)"

record 'k validate_params =
  v_vis :: "bool option"
  v_metrics :: "'k option"

text \<open>
  One round of the visualisation loop. \<open>choice g n\<close> is \<open>np.random.choice(n)\<close> in the
  generator state \<open>g\<close>: the index drawn and the next state; numpy raises when \<open>n\<close> is 0.
  \<open>predict\<close> is \<open>model.predict\<close>. Each \<open>plt.imshow\<close> adds its image to the list shown.
\<close>

definition validate_show ::
  "('g \<Rightarrow> nat \<Rightarrow> nat \<times> 'g) \<Rightarrow> ('m \<Rightarrow> rat ndarray \<Rightarrow> rat ndarray) \<Rightarrow> 'm \<Rightarrow> rat option
     \<Rightarrow> rat dataset \<Rightarrow> 'g \<times> image list \<Rightarrow> error + 'g \<times> image list" where
  "validate_show choice predict mdl threshold test st =
     (case st of (g, shown) \<Rightarrow>
        if ds_len test = 0 then Inl (ValueError ''a must be greater than 0 unless no samples are taken'')
        else
          case choice g (ds_len test) of (n, g') \<Rightarrow>
            bindE (np_index (fst test) n) (\<lambda>features_tensor.
            bindE (np_index (snd test) n) (\<lambda>true_label.
            let x_tensor = unsqueeze0 features_tensor;
                pr_mask = binarize threshold (squeeze (predict mdl x_tensor))
            in
            bindE (np_index true_label 0) (\<lambda>label0.
            Inr (g', shown @ [pr_mask, Float label0])))))"

record ('g, 'lg) validate_out =
  shown :: "image list"
  logs :: 'lg
  rng :: 'g

text \<open>
  \<open>validate\<close>. \<open>ValidEpoch_run metrics test model\<close> is the validation pass of the library
  over the whole test set; \<open>validate\<close> returns nothing, so the result is what it leaves
  behind: the images shown, what the pass logged and the generator state.
\<close>

definition validate ::
  "('g \<Rightarrow> nat \<Rightarrow> nat \<times> 'g) \<Rightarrow> ('m \<Rightarrow> rat ndarray \<Rightarrow> rat ndarray)
     \<Rightarrow> ('k \<Rightarrow> rat dataset \<Rightarrow> 'm \<Rightarrow> 'lg) \<Rightarrow> (string \<rightharpoonup> 'm)
     \<Rightarrow> rat dataset \<Rightarrow> string \<Rightarrow> 'm option \<Rightarrow> rat option \<Rightarrow> 'k validate_params \<Rightarrow> 'g
     \<Rightarrow> error + ('g, 'lg) validate_out" where
  "validate choice predict ValidEpoch_run fs test model_path model_arg threshold params g =
     bindE (case model_arg of None \<Rightarrow> torch_load fs model_path | Some m \<Rightarrow> Inr m) (\<lambda>mdl.
     bindE (if v_vis params = Some True
            then for_loop (\<lambda>i. validate_show choice predict mdl threshold test) [0..<5] (g, [])
            else Inr (g, [])) (\<lambda>(g', imgs).
     bindE (lookup ''metrics'' (v_metrics params)) (\<lambda>metrics.
     Inr \<lparr>shown = imgs, logs = ValidEpoch_run metrics test mdl, rng = g'\<rparr>)))"

section \<open>\<open>ModelExplorer.augmentation\<close>\<close>

text \<open>
  \<open>np.concatenate([a, b])\<close> along the first axis and \<open>np.concatenate([a, b], axis=1)\<close>
  along the second. numpy refuses zero-dimensional arrays, then an axis the first array
  does not have, then arrays of different rank, then arrays that differ on another axis.
\<close>

definition dims_message :: string where
  "dims_message = ''all the input array dimensions except for the concatenation axis must match exactly''"

definition rank_message :: string where
  "rank_message = ''all the input arrays must have same number of dimensions''"

definition zero_dim_message :: string where
  "zero_dim_message = ''zero-dimensional arrays cannot be concatenated''"

definition np_concatenate0 :: "'a ndarray \<Rightarrow> 'a ndarray \<Rightarrow> error + 'a ndarray" where
  "np_concatenate0 a b =
     (case shape a of
        [] \<Rightarrow> Inl (ValueError zero_dim_message)
      | n # ra \<Rightarrow>
         (case shape b of
            [] \<Rightarrow> Inl (ValueError rank_message)
          | m # rb \<Rightarrow>
              if length ra \<noteq> length rb then Inl (ValueError rank_message)
              else if ra \<noteq> rb then Inl (ValueError dims_message)
              else Inr \<lparr>shape = (n + m) # ra, buf = buf a @ buf b\<rparr>))"

definition np_concatenate1 :: "'a ndarray \<Rightarrow> 'a ndarray \<Rightarrow> error + 'a ndarray" where
  "np_concatenate1 a b =
     (case shape a of
        [] \<Rightarrow> Inl (ValueError zero_dim_message)
      | [n] \<Rightarrow> Inl AxisError
      | n # c # ra \<Rightarrow>
         (case shape b of
            m # d # rb \<Rightarrow>
              if length ra \<noteq> length rb then Inl (ValueError rank_message)
              else if n \<noteq> m \<or> ra \<noteq> rb then Inl (ValueError dims_message)
              else Inr \<lparr>shape = n # (c + d) # ra,
                        buf = concat (map (\<lambda>i. chunk (c * prod_list ra) i (buf a)
                                              @ chunk (d * prod_list ra) i (buf b)) [0..<n])\<rparr>
          | other \<Rightarrow> Inl (ValueError rank_message)))"

text \<open>
  \<open>a[i, j, :, :]\<close> and \<open>a[i, :, :]\<close>: integer indices on the leading axes, full slices on
  the following ones. \<open>np_item a idx colons\<close> raises when the array has fewer axes than
  index positions or an index is out of range. \<open>a[i, lo:hi, :, :]\<close> clips the slice to
  the axis. \<open>np.array([a])\<close> puts one array into a new leading axis. \<open>t[k]\<close> on a tuple.
\<close>

definition np_item :: "'a ndarray \<Rightarrow> nat list \<Rightarrow> nat \<Rightarrow> error + 'a ndarray" where
  "np_item a idx colons =
     (if length (shape a) < length idx + colons then Inl IndexError
      else for_loop (\<lambda>i sub. np_index sub i) idx a)"

definition np_item_slice :: "'a ndarray \<Rightarrow> nat \<Rightarrow> nat \<Rightarrow> nat \<Rightarrow> nat \<Rightarrow> error + 'a ndarray" where
  "np_item_slice a i lo hi colons =
     (if length (shape a) < 2 + colons then Inl IndexError
      else bindE (np_index a i) (\<lambda>sub.
        case shape sub of
          [] \<Rightarrow> Inl IndexError
        | c # rest \<Rightarrow>
            Inr \<lparr>shape = (min hi c - lo) # rest,
                 buf = take ((min hi c - lo) * prod_list rest)
                         (drop (lo * prod_list rest) (buf sub))\<rparr>))"

definition np_array1 :: "'a ndarray \<Rightarrow> 'a ndarray" where
  "np_array1 a = \<lparr>shape = 1 # shape a, buf = buf a\<rparr>"

definition tuple_index :: "'b list \<Rightarrow> nat \<Rightarrow> error + 'b" where
  "tuple_index t k = (if k < length t then Inr (t ! k) else Inl IndexError)"

text \<open>Reading a local variable that no assignment has reached yet.\<close>

definition read_var :: "string \<Rightarrow> 'v option \<Rightarrow> error + 'v" where
  "read_var name v = (case v of None \<Rightarrow> Inl (UnboundLocalError name) | Some x \<Rightarrow> Inr x)"

text \<open>
  The state of the per-sample loop: the state of Python's global generator, the two
  accumulators (unbound before the first iteration) and the images shown so far.
\<close>

record ('a, 'g) aug_state =
  gen :: 'g
  augmented_all_features :: "'a ndarray option"
  augmented_all_labels :: "'a ndarray option"
  displayed :: "'a ndarray list"

text \<open>
  The six plots of the \<open>vis\<close> branch: three channels of the stacked sample and three of
  the transformed one.
\<close>

definition aug_plots ::
  "'a ndarray \<Rightarrow> nat \<Rightarrow> 'a ndarray \<Rightarrow> 'a ndarray \<Rightarrow> error + 'a ndarray list" where
  "aug_plots stacked i augmented_features augmented_label =
     bindE (np_item stacked [i, 0] 2) (\<lambda>p0.
     bindE (np_item stacked [i, 1] 2) (\<lambda>p1.
     bindE (np_item stacked [i, 2] 2) (\<lambda>p2.
     bindE (np_item augmented_features [0] 2) (\<lambda>p3.
     bindE (np_item augmented_features [1] 2) (\<lambda>p4.
     bindE (np_item augmented_label [0] 2) (\<lambda>p5.
     Inr [p0, p1, p2, p3, p4, p5]))))))"

text \<open>
  One iteration. \<open>transformations g image mask\<close> is the albumentations composition
  called in generator state \<open>g\<close>: the transformed image and mask, and the state the
  generator is left in. The \<open>print(i)\<close> is left out.
\<close>

definition aug_body ::
  "('g \<Rightarrow> 'a ndarray \<Rightarrow> 'a ndarray \<Rightarrow> ('a ndarray \<times> 'a ndarray) \<times> 'g) \<Rightarrow> bool
     \<Rightarrow> nat list \<Rightarrow> 'a ndarray \<Rightarrow> nat \<Rightarrow> ('a, 'g) aug_state \<Rightarrow> error + ('a, 'g) aug_state" where
  "aug_body transformations vis features_shape stacked i st =
     bindE (tuple_index features_shape 1) (\<lambda>c.
     bindE (np_item_slice stacked i 0 c 2) (\<lambda>image.
     bindE (tuple_index features_shape 1) (\<lambda>c'.
     bindE (np_item stacked [i, c'] 2) (\<lambda>mask0.
     let mask = np_array1 mask0 in
     case transformations (gen st) image mask of
       ((augmented_features, augmented_label), g') \<Rightarrow>
         bindE (if vis then aug_plots stacked i augmented_features augmented_label else Inr [])
           (\<lambda>plots.
         let augmented_features1 = np_array1 augmented_features;
             augmented_label1 = np_array1 augmented_label
         in
         if i = 0
         then Inr \<lparr>gen = g',
                   augmented_all_features = Some augmented_features1,
                   augmented_all_labels = Some augmented_label1,
                   displayed = displayed st @ plots\<rparr>
         else
           bindE (read_var ''augmented_all_features'' (augmented_all_features st)) (\<lambda>all_f.
           bindE (np_concatenate0 all_f augmented_features1) (\<lambda>all_f'.
           bindE (read_var ''augmented_all_labels'' (augmented_all_labels st)) (\<lambda>all_l.
           bindE (np_concatenate0 all_l augmented_label1) (\<lambda>all_l'.
           Inr \<lparr>gen = g',
                augmented_all_features = Some all_f',
                augmented_all_labels = Some all_l',
                displayed = displayed st @ plots\<rparr>)))))))))"

text \<open>
  \<open>augmentation\<close>. \<open>seed\<close> is \<open>random.seed\<close>: the generator state a seed gives. \<open>g0\<close> is
  the state of the global generator when \<open>augmentation\<close> is called. The result is the
  dataset returned, the images shown and the state the generator is left in.
\<close>

definition augmentation ::
  "('g \<Rightarrow> 'a ndarray \<Rightarrow> 'a ndarray \<Rightarrow> ('a ndarray \<times> 'a ndarray) \<times> 'g) \<Rightarrow> (int \<Rightarrow> 'g)
     \<Rightarrow> bool \<Rightarrow> 'g \<Rightarrow> 'a dataset \<Rightarrow> error + ('a dataset \<times> 'a ndarray list \<times> 'g)" where
  "augmentation transformations seed vis g0 dataset =
     (let features = fst dataset;
          features_shape = shape features;
          targets = snd dataset
      in
      bindE (np_concatenate1 features targets) (\<lambda>stacked.
      bindE (np_len features) (\<lambda>n.
      bindE (for_loop (aug_body transformations vis features_shape stacked) [0..<n]
               \<lparr>gen = seed 7, augmented_all_features = None, augmented_all_labels = None,
                 displayed = []\<rparr>) (\<lambda>st.
      bindE (read_var ''augmented_all_features'' (augmented_all_features st)) (\<lambda>all_f.
      bindE (np_concatenate0 features all_f) (\<lambda>features'.
      bindE (read_var ''augmented_all_labels'' (augmented_all_labels st)) (\<lambda>all_l.
      bindE (np_concatenate0 targets all_l) (\<lambda>targets'.
      bindE (TensorDataset features' targets') (\<lambda>result.
      Inr (result, displayed st, gen st))))))))))"

text \<open>
  What the specification says of the augmented half, sample by sample: sample \<open>i\<close> is
  the image \<open>features[i]\<close> with the mask made of the first label channel, transformed in
  the generator state left by the samples before it.
\<close>

definition row :: "'a ndarray \<Rightarrow> nat \<Rightarrow> 'a ndarray" where
  "row a i = \<lparr>shape = tl (shape a), buf = chunk (prod_list (tl (shape a))) i (buf a)\<rparr>"

definition sample_mask :: "'a ndarray \<Rightarrow> nat \<Rightarrow> 'a ndarray" where
  "sample_mask targets i = np_array1 (row (row targets i) 0)"

fun gen_before ::
  "('g \<Rightarrow> 'a ndarray \<Rightarrow> 'a ndarray \<Rightarrow> ('a ndarray \<times> 'a ndarray) \<times> 'g) \<Rightarrow> 'g
     \<Rightarrow> 'a dataset \<Rightarrow> nat \<Rightarrow> 'g" where
  "gen_before transformations g d 0 = g"
| "gen_before transformations g d (Suc i) =
     snd (transformations (gen_before transformations g d i) (row (fst d) i) (sample_mask (snd d) i))"

definition transformed ::
  "('g \<Rightarrow> 'a ndarray \<Rightarrow> 'a ndarray \<Rightarrow> ('a ndarray \<times> 'a ndarray) \<times> 'g) \<Rightarrow> 'g
     \<Rightarrow> 'a dataset \<Rightarrow> nat \<Rightarrow> 'a ndarray \<times> 'a ndarray" where
  "transformed transformations g d i =
     fst (transformations (gen_before transformations g d i) (row (fst d) i) (sample_mask (snd d) i))"

text \<open>
  What is assumed of the geometric transforms of the library: the arrays they return
  have the shape, and so the number of elements, of the arrays they were given.
\<close>

definition shape_preserving ::
  "('g \<Rightarrow> 'a ndarray \<Rightarrow> 'a ndarray \<Rightarrow> ('a ndarray \<times> 'a ndarray) \<times> 'g) \<Rightarrow> bool" where
  "shape_preserving transformations =
     (\<forall>g image mask.
        shape (fst (fst (transformations g image mask))) = shape image
      \<and> shape (snd (fst (transformations g image mask))) = shape mask
      \<and> length (buf (fst (fst (transformations g image mask)))) = length (buf image)
      \<and> length (buf (snd (fst (transformations g image mask)))) = length (buf mask))"

text \<open>The array whose \<open>k\<close> rows are \<open>h 0, ..., h (k - 1)\<close>, each of shape \<open>sh\<close>.\<close>

definition stack_rows :: "nat list \<Rightarrow> (nat \<Rightarrow> 'a ndarray) \<Rightarrow> nat \<Rightarrow> 'a ndarray" where
  "stack_rows sh h k = \<lparr>shape = k # sh, buf = concat (map (\<lambda>i. buf (h i)) [0..<k])\<rparr>"

section \<open>Helper lemmas on exceptions and loops\<close>

lemma bindE_Inr [simp]: "bindE (Inr v) f = f v"
  by (simp add: bindE_def)

lemma bindE_Inl [simp]: "bindE (Inl e) f = Inl e"
  by (simp add: bindE_def)

lemma for_loop_append:
  "for_loop body (xs @ ys) st = bindE (for_loop body xs st) (for_loop body ys)"
proof (induction xs arbitrary: st)
  case Nil
  show ?case by simp
next
  case (Cons x xs)
  show ?case
  proof (cases "body x st")
    case (Inl e)
    then show ?thesis by simp
  next
    case (Inr st')
    then show ?thesis using Cons.IH [of st'] by simp
  qed
qed

lemma for_loop_snoc:
  "for_loop body (xs @ [x]) st = bindE (for_loop body xs st) (body x)"
proof -
  have "for_loop body [x] = body x"
  proof
    fix s show "for_loop body [x] s = body x s"
      by (cases "body x s") simp_all
  qed
  then show ?thesis by (simp add: for_loop_append)
qed

lemma range_snoc: "0 \<le> j \<Longrightarrow> [0..j] = [0..j - 1] @ [j]"
  by (simp add: upto_rec2)

section \<open>Properties of \<open>train_test\<close>\<close>

lemma py_round_ge_floor: "\<lfloor>q\<rfloor> \<le> py_round q"
  by (simp add: py_round_def Let_def)

lemma py_round_lower:
  assumes "of_int m \<le> q"
  shows "m \<le> py_round q"
proof -
  from assms have "m \<le> \<lfloor>q\<rfloor>" by (simp add: le_floor_iff)
  with py_round_ge_floor [of q] show ?thesis by linarith
qed

lemma py_round_of_int: "py_round (of_int m) = m"
  by (simp add: py_round_def Let_def)

lemma py_round_upper:
  assumes "q \<le> of_int m"
  shows "py_round q \<le> m"
proof (cases "q = of_int m")
  case True
  then show ?thesis by (simp add: py_round_of_int)
next
  case False
  with assms have "q < of_int m" by simp
  then have "\<lfloor>q\<rfloor> < m" by (simp add: floor_less_iff)
  moreover have "py_round q \<le> \<lfloor>q\<rfloor> + 1"
    by (simp add: py_round_def Let_def)
  ultimately show ?thesis by linarith
qed

lemma py_slice_prefix:
  "0 \<le> a \<Longrightarrow> a \<le> int (length xs) \<Longrightarrow> py_slice xs 0 a = take (nat a) xs"
  by (simp add: py_slice_def Let_def min_def)

lemma py_slice_suffix:
  "0 \<le> a \<Longrightarrow> a \<le> int (length xs) \<Longrightarrow> py_slice xs a (int (length xs)) = drop (nat a) xs"
  by (simp add: py_slice_def Let_def min_def)

lemma random_split_two:
  assumes "0 \<le> a" "a \<le> int n" "length perm = n"
  shows "random_split n [a, int n - a] perm = Inr [take (nat a) perm, drop (nat a) perm]"
proof -
  have "py_slice perm 0 a = take (nat a) perm"
    using assms by (simp add: py_slice_prefix)
  moreover have "py_slice perm a (int (length perm)) = drop (nat a) perm"
    by (rule py_slice_suffix) (use assms in auto)
  ultimately show ?thesis using assms(3) by (simp add: random_split_def)
qed

lemma np_take_ok:
  assumes "shape a = n # rest" "set idx \<subseteq> {0..<n}"
  shows "\<exists>r. np_take a idx = Inr r \<and> shape r = length idx # rest"
  using assms by (auto simp: np_take_def list_all_iff)

lemma ds_getitem_ok:
  assumes "shape x = n # sx" "shape y = n # sy" "set idx \<subseteq> {0..<n}"
  shows "\<exists>fx fy. ds_getitem (x, y) idx = Inr (fx, fy)
           \<and> shape fx = length idx # sx \<and> shape fy = length idx # sy"
proof -
  from np_take_ok [OF assms(1,3)] obtain fx where
    fx: "np_take x idx = Inr fx" "shape fx = length idx # sx" by blast
  from np_take_ok [OF assms(2,3)] obtain fy where
    fy: "np_take y idx = Inr fy" "shape fy = length idx # sy" by blast
  show ?thesis using fx fy by (simp add: ds_getitem_def bindE_def)
qed

lemma TensorDataset_ok:
  "shape x = n # sx \<Longrightarrow> shape y = n # sy \<Longrightarrow> TensorDataset x y = Inr (x, y)"
  by (simp add: TensorDataset_def)

lemma perm_facts:
  assumes "mset perm = mset [0..<n]"
  shows "length perm = n" "distinct perm" "set perm = {0..<n}"
proof -
  show "length perm = n" using assms by (metis length_upt mset_eq_length minus_nat.diff_0)
  show "distinct perm" using assms by (metis distinct_upt mset_eq_imp_distinct_iff)
  show "set perm = {0..<n}" using assms by (metis mset_eq_setD set_upt)
qed


lemma train_test_in_range:
  assumes x: "shape x = n # sx" and y: "shape y = n # sy"
    and r: "1/10 \<le> r" "r \<le> 99/100"
    and perm: "mset perm = mset [0..<n]"
  defines "k \<equiv> py_round (of_nat n * r)"
  shows "0 \<le> k" "k \<le> int n"
    and "random_split n [k, int n - k] perm = Inr [take (nat k) perm, drop (nat k) perm]"
    and "\<exists>xtr ytr xte yte.
           ds_getitem (x, y) (take (nat k) perm) = Inr (xtr, ytr)
         \<and> ds_getitem (x, y) (drop (nat k) perm) = Inr (xte, yte)
         \<and> shape xtr = nat k # sx \<and> shape ytr = nat k # sy
         \<and> shape xte = (n - nat k) # sx \<and> shape yte = (n - nat k) # sy
         \<and> train_test x y r perm = Inr ((xtr, ytr), (xte, yte))"
proof -
  have "(0::rat) \<le> of_nat n * r" using r by simp
  then have "of_int 0 \<le> of_nat n * r" by simp
  then show k0: "0 \<le> k" unfolding k_def by (rule py_round_lower)
  have "of_nat n * r \<le> of_nat n * 1" using r by (intro mult_left_mono) auto
  then have "of_nat n * r \<le> of_int (int n)" by simp
  then show kn: "k \<le> int n" unfolding k_def by (rule py_round_upper)
  note pf = perm_facts [OF perm]
  show rs: "random_split n [k, int n - k] perm = Inr [take (nat k) perm, drop (nat k) perm]"
    using k0 kn pf(1) by (rule random_split_two)
  have tr_sub: "set (take (nat k) perm) \<subseteq> {0..<n}"
    using set_take_subset [of "nat k" perm] pf(3) by simp
  have te_sub: "set (drop (nat k) perm) \<subseteq> {0..<n}"
    using set_drop_subset [of "nat k" perm] pf(3) by simp
  from ds_getitem_ok [OF x y tr_sub] obtain xtr ytr where
    tr: "ds_getitem (x, y) (take (nat k) perm) = Inr (xtr, ytr)"
      "shape xtr = length (take (nat k) perm) # sx"
      "shape ytr = length (take (nat k) perm) # sy" by blast
  from ds_getitem_ok [OF x y te_sub] obtain xte yte where
    te: "ds_getitem (x, y) (drop (nat k) perm) = Inr (xte, yte)"
      "shape xte = length (drop (nat k) perm) # sx"
      "shape yte = length (drop (nat k) perm) # sy" by blast
  have ltr: "length (take (nat k) perm) = nat k" using kn k0 pf(1) by simp
  have lte: "length (drop (nat k) perm) = n - nat k" using pf(1) by simp
  have dsl: "ds_len (x, y) = n" using x by (simp add: ds_len_def)
  have "train_test x y r perm = Inr ((xtr, ytr), (xte, yte))"
    using r rs tr te TensorDataset_ok [OF x y] dsl
      TensorDataset_ok [OF tr(2) tr(3)] TensorDataset_ok [OF te(2) te(3)]
    by (simp add: train_test_def bindE_def Let_def k_def [symmetric] unpack2_def)
  then show "\<exists>xtr ytr xte yte.
           ds_getitem (x, y) (take (nat k) perm) = Inr (xtr, ytr)
         \<and> ds_getitem (x, y) (drop (nat k) perm) = Inr (xte, yte)
         \<and> shape xtr = nat k # sx \<and> shape ytr = nat k # sy
         \<and> shape xte = (n - nat k) # sx \<and> shape yte = (n - nat k) # sy
         \<and> train_test x y r perm = Inr ((xtr, ytr), (xte, yte))"
    using tr te ltr lte by auto
qed




text \<open>
  Claim C2, as amended. \<open>train_test\<close> raises its \<open>ValueError\<close> exactly when
  \<open>train_size < 0.1\<close> or \<open>train_size > 0.99\<close>: the accepted range is the closed interval,
  so \<open>0.05\<close> and \<open>1.0\<close> raise while \<open>0.1\<close> and \<open>0.99\<close> themselves do not.
\<close>

theorem train_test_rejects_iff:
  "train_test x y r perm = Inl (ValueError train_size_message) \<longleftrightarrow> r < 1/10 \<or> 99/100 < r"
proof
  assume "r < 1/10 \<or> 99/100 < r"
  then show "train_test x y r perm = Inl (ValueError train_size_message)"
    by (auto simp: train_test_def)
next
  assume a: "train_test x y r perm = Inl (ValueError train_size_message)"
  show "r < 1/10 \<or> 99/100 < r"
  proof (rule ccontr)
    assume "\<not> (r < 1/10 \<or> 99/100 < r)"
    with a show False
      by (auto simp: train_test_def bindE_def Let_def TensorDataset_def random_split_def
            unpack2_def ds_getitem_def np_take_def train_size_message_def
          split: sum.splits list.splits if_splits prod.splits)
  qed
qed

theorem train_test_rejects_iff_witness:
  "train_test \<lparr>shape = [4, 1], buf = [10, 11, 12, 13::int]\<rparr>
              \<lparr>shape = [4], buf = [20, 21, 22, 23]\<rparr> (1/20) [2, 0, 3, 1]
     = Inl (ValueError train_size_message)
   \<and> train_test \<lparr>shape = [4, 1], buf = [10, 11, 12, 13::int]\<rparr>
              \<lparr>shape = [4], buf = [20, 21, 22, 23]\<rparr> 1 [2, 0, 3, 1]
     = Inl (ValueError train_size_message)
   \<and> train_test \<lparr>shape = [4, 1], buf = [10, 11, 12, 13::int]\<rparr>
              \<lparr>shape = [4], buf = [20, 21, 22, 23]\<rparr> (99/100) [2, 0, 3, 1]
     \<noteq> Inl (ValueError train_size_message)"
  using train_test_rejects_iff [of "\<lparr>shape = [4, 1], buf = [10, 11, 12, 13::int]\<rparr>"
          "\<lparr>shape = [4], buf = [20, 21, 22, 23]\<rparr>" "1/20" "[2, 0, 3, 1]"]
        train_test_rejects_iff [of "\<lparr>shape = [4, 1], buf = [10, 11, 12, 13::int]\<rparr>"
          "\<lparr>shape = [4], buf = [20, 21, 22, 23]\<rparr>" "1" "[2, 0, 3, 1]"]
        train_test_rejects_iff [of "\<lparr>shape = [4, 1], buf = [10, 11, 12, 13::int]\<rparr>"
          "\<lparr>shape = [4], buf = [20, 21, 22, 23]\<rparr>" "99/100" "[2, 0, 3, 1]"]
  by simp

text \<open>
  The bound \<open>0.1\<close> is not inside the open interval, and \<open>train_test\<close> accepts it: with four
  samples it returns an empty train part (\<open>round(0.4) = 0\<close>) and all four as test part.
\<close>

theorem train_test_boundary_counterexample:
  "\<not> ((1/10::rat) < 1/10 \<and> (1/10::rat) < 99/100)
   \<and> train_test \<lparr>shape = [4, 1], buf = [10, 11, 12, 13::int]\<rparr>
                \<lparr>shape = [4], buf = [20, 21, 22, 23]\<rparr> (1/10) [2, 0, 3, 1]
       = Inr ((\<lparr>shape = [0, 1], buf = []\<rparr>, \<lparr>shape = [0], buf = []\<rparr>),
              (\<lparr>shape = [4, 1], buf = [12, 10, 13, 11]\<rparr>,
               \<lparr>shape = [4], buf = [22, 20, 23, 21]\<rparr>))"
  by code_simp

section \<open>Properties of \<open>fit\<close>\<close>

lemma fit_epoch_Inr:
  assumes "param_groups (optimizer st) = g # gs"
  shows "fit_epoch tr vr E prom i st =
     Inr \<lparr>model = vr (tr (optimizer st) (model st)),
          optimizer = (if i = py_round (of_int E * (8/10))
                       then (optimizer st)\<lparr>param_groups := g(''lr'' \<mapsto> 2/1000000) # gs\<rparr>
                       else optimizer st),
          saved = saved st @ (if i \<in> {10, 20, 30, 40, 50}
                              then [(prom, vr (tr (optimizer st) (model st)))] else [])\<rparr>"
  using assms by (simp add: fit_epoch_def set_first_lr_def Let_def)


lemma fit_loop_optimizer:
  fixes E :: int
  assumes pg: "param_groups (optimizer st) = g # gs"
  shows "int n \<le> E \<Longrightarrow>
     \<exists>s. for_loop (fit_epoch tr vr E prom) [0..int n - 1] st = Inr s
        \<and> optimizer s = (if int n \<le> py_round (of_int E * (8/10)) then optimizer st
                         else (optimizer st)\<lparr>param_groups := g(''lr'' \<mapsto> 2/1000000) # gs\<rparr>)"
proof (induction n)
  case 0
  show ?case
  proof (cases "0 \<le> py_round (of_int E * (8/10))")
    case True
    then show ?thesis by simp
  next
    case False
    have "(0::rat) \<le> of_int E * (8/10)" using 0 by simp
    then have "of_int 0 \<le> of_int E * (8/10::rat)" by simp
    then have "0 \<le> py_round (of_int E * (8/10))" by (rule py_round_lower)
    with False show ?thesis by simp
  qed
next
  case (Suc n)
  let ?k = "py_round (of_int E * (8/10))"
  let ?low = "(optimizer st)\<lparr>param_groups := g(''lr'' \<mapsto> 2/1000000) # gs\<rparr>"
  from Suc obtain s where
    s: "for_loop (fit_epoch tr vr E prom) [0..int n - 1] st = Inr s"
    and os: "optimizer s = (if int n \<le> ?k then optimizer st else ?low)"
    by auto
  have pgs: "\<exists>g'. param_groups (optimizer s) = g' # gs" using os pg by auto
  then obtain g' where g': "param_groups (optimizer s) = g' # gs" by blast
  have g'_eq: "g' = (if int n \<le> ?k then g else g(''lr'' \<mapsto> 2/1000000))"
    using os pg g' by (auto split: if_splits)
  have rng: "[0..int (Suc n) - 1] = [0..int n - 1] @ [int n]"
    using range_snoc [of "int n"] by simp
  have step: "for_loop (fit_epoch tr vr E prom) [0..int (Suc n) - 1] st
      = fit_epoch tr vr E prom (int n) s"
    unfolding rng for_loop_snoc s by simp
  show ?case
    unfolding step fit_epoch_Inr [OF g']
    using os pg g'_eq by (auto split: if_splits)
qed

lemma fit_loop_optimizer_int:
  fixes E j :: int
  assumes "param_groups (optimizer st) = g # gs" and "0 \<le> j" and "j \<le> E"
  shows "\<exists>s. for_loop (fit_epoch train_run valid_run E prom) [0..j - 1] st = Inr s
        \<and> optimizer s = (if j \<le> py_round (of_int E * (8/10)) then optimizer st
                         else (optimizer st)\<lparr>param_groups := g(''lr'' \<mapsto> 2/1000000) # gs\<rparr>)"
proof -
  have "int (nat j) \<le> E" using assms(2,3) by simp
  from fit_loop_optimizer [OF assms(1) this, of train_run valid_run prom]
  show ?thesis using assms(2) by simp
qed


text \<open>
  Claim C5. \<open>j\<close> epochs have completed, of the \<open>E\<close> configured: those with the indices
  \<open>0, ..., j - 1\<close>. While \<open>j \<le> round(0.8 * E)\<close>, every completed epoch has an index
  below \<open>round(0.8 * E)\<close> and the optimizer is exactly as it was passed in; once
  \<open>round(0.8 * E) < j\<close>, the epoch with that index has completed and the first parameter
  group's \<open>'lr'\<close> is \<open>2e-6\<close>, every other hyperparameter and group being untouched.
\<close>

theorem fit_learning_rate:
  fixes E j :: int
  assumes "param_groups (optimizer st) = g # gs" and "0 \<le> j" and "j \<le> E"
  shows "\<exists>s. for_loop (fit_epoch train_run valid_run E prom) [0..j - 1] st = Inr s
        \<and> optimizer s = (if j \<le> py_round (of_int E * (8/10)) then optimizer st
                         else (optimizer st)\<lparr>param_groups := g(''lr'' \<mapsto> 2/1000000) # gs\<rparr>)"
  using assms by (rule fit_loop_optimizer_int)

theorem fit_learning_rate_witness:
  "(\<exists>s. for_loop (fit_epoch (\<lambda>opt m. Suc m) (\<lambda>m. m) 5 ''wd/prom.pth'') [0..4 - 1]
           \<lparr>model = 0, optimizer = \<lparr>param_groups = [[''lr'' \<mapsto> 1/1000]]\<rparr>, saved = []\<rparr> = Inr s
        \<and> hd (param_groups (optimizer s)) ''lr'' = Some (1/1000))
 \<and> (\<exists>s. for_loop (fit_epoch (\<lambda>opt m. Suc m) (\<lambda>m. m) 5 ''wd/prom.pth'') [0..5 - 1]
           \<lparr>model = 0, optimizer = \<lparr>param_groups = [[''lr'' \<mapsto> 1/1000]]\<rparr>, saved = []\<rparr> = Inr s
        \<and> hd (param_groups (optimizer s)) ''lr'' = Some (2/1000000))"
proof -
  let ?st = "\<lparr>model = 0::nat, optimizer = \<lparr>param_groups = [[''lr'' \<mapsto> 1/1000]]\<rparr>,
              saved = []\<rparr>"
  have h: "param_groups (optimizer ?st) = [''lr'' \<mapsto> 1/1000] # []" by simp
  have k: "py_round (of_int 5 * (8/10)) = 4" by code_simp
  have a: "(0::int) \<le> 4" "(4::int) \<le> 5" "(0::int) \<le> 5" "(5::int) \<le> 5" by simp_all
  show ?thesis
    using fit_learning_rate [OF h a(1) a(2), of "\<lambda>opt m. Suc m" "\<lambda>m. m" "''wd/prom.pth''"]
          fit_learning_rate [OF h a(3) a(4), of "\<lambda>opt m. Suc m" "\<lambda>m. m" "''wd/prom.pth''"]
    unfolding k by auto
qed

text \<open>
  With one or two epochs configured, \<open>round(0.8 * E)\<close> is \<open>E\<close> itself, an index the
  loop never reaches: the rate is then never lowered.
\<close>

lemma short_runs_keep_rate:
  "py_round (of_int 1 * (8/10)) = 1 \<and> py_round (of_int 2 * (8/10)) = 2"
  by code_simp


lemma fit_epoch_saved:
  assumes "fit_epoch tr vr E prom i st = Inr st'"
  shows "saved st' = saved st @ (if i \<in> {10, 20, 30, 40, 50} then [(prom, model st')] else [])"
  using assms
  by (auto simp: fit_epoch_def set_first_lr_def Let_def bindE_def
      split: if_splits list.splits)

lemma accumulate_steps:
  fixes E :: int and sv :: "int \<Rightarrow> 'x list"
  assumes "\<And>j. 0 \<le> j \<Longrightarrow> j < E \<Longrightarrow> sv (j + 1) = sv j @ (if P j then [f j] else [])"
  shows "int k \<le> E \<Longrightarrow> sv (int k) = sv 0 @ map f (filter P [0..int k - 1])"
proof (induction k)
  case 0
  show ?case by simp
next
  case (Suc k)
  have rng: "[0..int (Suc k) - 1] = [0..int k - 1] @ [int k]"
    using range_snoc [of "int k"] by simp
  have "sv (int (Suc k)) = sv (int k + 1)" by (simp add: add.commute)
  also have "\<dots> = sv (int k) @ (if P (int k) then [f (int k)] else [])"
    using Suc.prems by (intro assms) simp_all
  also have "sv (int k) = sv 0 @ map f (filter P [0..int k - 1])"
    using Suc by simp
  also have "(sv 0 @ map f (filter P [0..int k - 1])) @ (if P (int k) then [f (int k)] else [])
      = sv 0 @ map f (filter P ([0..int k - 1] @ [int k]))" by simp
  finally show ?case unfolding rng .
qed

text \<open>
  Claim C6. With every keyword present, a non-negative epoch count \<open>E\<close> and an optimizer
  that has a parameter group, \<open>fit\<close> returns. \<open>S j\<close> is the state after \<open>j\<close> epochs. The
  epoch with index \<open>j\<close> saves the model to \<open><working_dir>/prom.pth\<close> when \<open>j\<close> is one of
  10, 20, 30, 40, 50 and saves nothing otherwise, whatever \<open>E\<close> is; so the files written by
  the loop are the snapshots at those indices below \<open>E\<close>, in order. After the loop the
  model is saved to \<open><working_dir>/best_model.pth\<close> and returned. With \<open>E \<ge> 11\<close> the
  intermediate checkpoint is there once the epoch with index 10 is over.
\<close>

theorem fit_checkpoints:
  fixes E :: int
  assumes x: "shape (fst train) = n # sx" and y: "shape (snd train) = n # sy"
    and perm: "mset perm = mset [0..<n]"
    and bs: "p_batch_size params = Some bs" and ep: "p_epochs params = Some E"
    and op: "p_optimizer params = Some opt" and mt: "p_metrics params = Some mt"
    and pg: "param_groups opt \<noteq> []" and E: "0 \<le> E"
  shows "\<exists>S tr va.
      train_test (fst train) (snd train) (95/100) perm = Inr (tr, va)
    \<and> S 0 = \<lparr>model = m_init, optimizer = opt, saved = files\<rparr>
    \<and> (\<forall>j. 0 \<le> j \<and> j < E \<longrightarrow>
          fit_epoch (TR mt (tr, bs)) (VR mt va) E (os_path_join wd ''prom.pth'') j (S j)
            = Inr (S (j + 1))
        \<and> saved (S (j + 1))
            = saved (S j) @ (if j \<in> {10, 20, 30, 40, 50}
                             then [(os_path_join wd ''prom.pth'', model (S (j + 1)))] else []))
    \<and> saved (S E)
        = files @ map (\<lambda>i. (os_path_join wd ''prom.pth'', model (S (i + 1))))
                  (filter (\<lambda>i. i \<in> {10, 20, 30, 40, 50}) [0..E - 1])
    \<and> fit TR VR wd train m_init params perm files
        = Inr (model (S E),
               (S E)\<lparr>saved := saved (S E) @ [(os_path_join wd ''best_model.pth'', model (S E))]\<rparr>)
    \<and> (11 \<le> E \<longrightarrow> (os_path_join wd ''prom.pth'', model (S 11)) \<in> set (saved (S 11)))"
proof -
  have r: "(1/10::rat) \<le> 95/100" "(95/100::rat) \<le> 99/100" by simp_all
  from train_test_in_range(4) [OF x y r perm] obtain tr va where
    tt: "train_test (fst train) (snd train) (95/100) perm = Inr (tr, va)" by blast
  define prom where "prom = os_path_join wd ''prom.pth''"
  define body where "body = fit_epoch (TR mt (tr, bs)) (VR mt va) E prom"
  define st0 where "st0 = \<lparr>model = m_init, optimizer = opt, saved = files\<rparr>"
  define S where "S j = (case for_loop body [0..j - 1] st0 of Inr s \<Rightarrow> s | Inl e \<Rightarrow> st0)" for j
  from pg obtain g gs where ggs: "param_groups (optimizer st0) = g # gs"
    by (cases "param_groups opt") (auto simp: st0_def)
  have run: "for_loop body [0..j - 1] st0 = Inr (S j) \<and> param_groups (optimizer (S j)) \<noteq> []"
    if "0 \<le> j" "j \<le> E" for j
  proof -
    from fit_loop_optimizer_int [OF ggs that, of "TR mt (tr, bs)" "VR mt va" prom]
    obtain s where s: "for_loop body [0..j - 1] st0 = Inr s"
      and os: "optimizer s = (if j \<le> py_round (of_int E * (8/10)) then optimizer st0
                 else (optimizer st0)\<lparr>param_groups := g(''lr'' \<mapsto> 2/1000000) # gs\<rparr>)"
      unfolding body_def by blast
    have "S j = s" using s by (simp add: S_def)
    moreover have "param_groups (optimizer s) \<noteq> []" using os ggs by (auto split: if_splits)
    ultimately show ?thesis using s by simp
  qed
  have S0: "S 0 = st0" by (simp add: S_def)
  have step: "body j (S j) = Inr (S (j + 1))" if "0 \<le> j" "j < E" for j
  proof -
    have "[0..j + 1 - 1] = [0..j - 1] @ [j]" using range_snoc [OF that(1)] by simp
    then have "for_loop body [0..j + 1 - 1] st0 = bindE (for_loop body [0..j - 1] st0) (body j)"
      by (simp only: for_loop_snoc)
    also have "\<dots> = body j (S j)" using run [of j] that by simp
    finally show ?thesis using run [of "j + 1"] that by simp
  qed
  have sv_step: "saved (S (j + 1))
      = saved (S j) @ (if j \<in> {10, 20, 30, 40, 50} then [(prom, model (S (j + 1)))] else [])"
    if "0 \<le> j" "j < E" for j
    using step [OF that] unfolding body_def by (rule fit_epoch_saved)
  have svE: "saved (S E) = files @ map (\<lambda>i. (prom, model (S (i + 1))))
                (filter (\<lambda>i. i \<in> {10, 20, 30, 40, 50}) [0..E - 1])"
    using accumulate_steps [of E "\<lambda>j. saved (S j)" "\<lambda>i. i \<in> {10, 20, 30, 40, 50}"
            "\<lambda>i. (prom, model (S (i + 1)))" "nat E", OF sv_step] E S0
    by (simp add: st0_def)
  have loopE: "for_loop body [0..E - 1] st0 = Inr (S E)" using run [of E] E by simp
  have fit_eq: "fit TR VR wd train m_init params perm files
      = Inr (model (S E),
             (S E)\<lparr>saved := saved (S E) @ [(os_path_join wd ''best_model.pth'', model (S E))]\<rparr>)"
    using tt bs ep op mt loopE
    by (simp add: fit_def lookup_def Let_def body_def prom_def st0_def)
  have eleven: "(prom, model (S 11)) \<in> set (saved (S 11))" if "11 \<le> E"
    using sv_step [of 10] that by simp
  show ?thesis
    apply (rule exI [of _ S], rule exI [of _ tr], rule exI [of _ va])
    using tt S0 step sv_step svE fit_eq eleven
    unfolding body_def prom_def st0_def by blast
qed


theorem fit_checkpoints_witness:
  "(\<exists>S tr va.
      train_test (fst (\<lparr>shape = [2, 1], buf = [1, 2::int]\<rparr>, \<lparr>shape = [2], buf = [3, 4::int]\<rparr>))
                 (snd (\<lparr>shape = [2, 1], buf = [1, 2::int]\<rparr>, \<lparr>shape = [2], buf = [3, 4::int]\<rparr>))
                 (95/100) [1, 0] = Inr (tr, va)
    \<and> S 0 = \<lparr>model = 0::nat, optimizer = \<lparr>param_groups = [[''lr'' \<mapsto> 1/1000]]\<rparr>, saved = []\<rparr>
    \<and> (\<forall>j. 0 \<le> j \<and> j < 12 \<longrightarrow>
          fit_epoch ((\<lambda>mt ld opt m. Suc m) () (tr, 1::nat)) ((\<lambda>mt ds m. m) () va) 12
              (os_path_join ''wd'' ''prom.pth'') j (S j)
            = Inr (S (j + 1))
        \<and> saved (S (j + 1))
            = saved (S j) @ (if j \<in> {10, 20, 30, 40, 50}
                             then [(os_path_join ''wd'' ''prom.pth'', model (S (j + 1)))] else []))
    \<and> saved (S 12)
        = [] @ map (\<lambda>i. (os_path_join ''wd'' ''prom.pth'', model (S (i + 1))))
                  (filter (\<lambda>i. i \<in> {10, 20, 30, 40, 50}) [0..12 - 1])
    \<and> fit (\<lambda>mt ld opt m. Suc m) (\<lambda>mt ds m. m) ''wd''
          (\<lparr>shape = [2, 1], buf = [1, 2::int]\<rparr>, \<lparr>shape = [2], buf = [3, 4::int]\<rparr>) 0
          \<lparr>p_batch_size = Some (1::nat), p_epochs = Some 12,
            p_optimizer = Some \<lparr>param_groups = [[''lr'' \<mapsto> 1/1000]]\<rparr>, p_metrics = Some ()\<rparr>
          [1, 0] []
        = Inr (model (S 12),
               (S 12)\<lparr>saved := saved (S 12) @ [(os_path_join ''wd'' ''best_model.pth'', model (S 12))]\<rparr>)
    \<and> (11 \<le> (12::int) \<longrightarrow> (os_path_join ''wd'' ''prom.pth'', model (S 11)) \<in> set (saved (S 11))))"
proof -
  let ?train = "(\<lparr>shape = [2, 1], buf = [1, 2::int]\<rparr>, \<lparr>shape = [2], buf = [3, 4::int]\<rparr>)"
  let ?params = "\<lparr>p_batch_size = Some (1::nat), p_epochs = Some 12,
            p_optimizer = Some \<lparr>param_groups = [[''lr'' \<mapsto> 1/1000]]\<rparr>, p_metrics = Some ()\<rparr>"
  have h1: "shape (fst ?train) = 2 # [1]" by simp
  have h2: "shape (snd ?train) = 2 # []" by simp
  have h3: "mset [1, 0] = mset [0..<2]" by code_simp
  have h4: "p_batch_size ?params = Some 1" by simp
  have h5: "p_epochs ?params = Some 12" by simp
  have h6: "p_optimizer ?params = Some \<lparr>param_groups = [[''lr'' \<mapsto> 1/1000]]\<rparr>" by simp
  have h7: "p_metrics ?params = Some ()" by simp
  have h8: "param_groups \<lparr>param_groups = [[''lr'' \<mapsto> 1/1000::rat]]\<rparr> \<noteq> []" by simp
  have h9: "(0::int) \<le> 12" by simp
  show ?thesis
    by (rule fit_checkpoints [OF h1 h2 h3 h4 h5 h6 h7 h8 h9,
          where TR = "\<lambda>mt ld opt m. Suc m" and VR = "\<lambda>mt ds m. m" and wd = "''wd''"
            and m_init = 0 and files = "[]"])
qed

text \<open>A run of twelve epochs, evaluated: one intermediate and the final checkpoint.\<close>

lemma fit_example_run:
  "map_sum id (\<lambda>(m, st). (m, saved st))
     (fit (\<lambda>mt ld opt m. Suc m) (\<lambda>mt ds m. m) ''wd''
          (\<lparr>shape = [2, 1], buf = [1, 2::int]\<rparr>, \<lparr>shape = [2], buf = [3, 4::int]\<rparr>) (0::nat)
          \<lparr>p_batch_size = Some (1::nat), p_epochs = Some 12,
            p_optimizer = Some \<lparr>param_groups = [[''lr'' \<mapsto> 1/1000]]\<rparr>, p_metrics = Some ()\<rparr>
          [1, 0] [])
   = Inr (12, [(''wd/prom.pth'', 11), (''wd/best_model.pth'', 12)])"
  by code_simp

section \<open>Properties of \<open>validate\<close>\<close>

text \<open>
  Every round of the visualisation loop shows the prediction as \<open>binarize\<close> leaves it,
  then the first channel of the label.
\<close>

lemma validate_show_images:
  assumes "validate_show choice predict mdl threshold test (g, imgs) = Inr (g', imgs')"
  shows "\<exists>features_tensor label0.
      np_index (fst test) (fst (choice g (ds_len test))) = Inr features_tensor
    \<and> imgs' = imgs @ [binarize threshold (squeeze (predict mdl (unsqueeze0 features_tensor))),
                       Float label0]"
  using assms
  by (auto simp: validate_show_def bindE_def Let_def split: if_splits prod.splits sum.splits)




text \<open>
  Claim C9. With a model passed in, \<open>validate\<close> does not read \<open>model_path\<close> or any file:
  whatever the path and the files are, the images shown, the logs, the generator state
  or the exception raised are the same, and the exception is never that of a failed load.
\<close>

theorem validate_ignores_model_path:
  "validate choice predict VR fs test path (Some m) threshold params g
     = validate choice predict VR fs' test path' (Some m) threshold params g
 \<and> validate choice predict VR fs test path (Some m) threshold params g \<noteq> Inl (FileNotFoundError q)"
proof
  show "validate choice predict VR fs test path (Some m) threshold params g
     = validate choice predict VR fs' test path' (Some m) threshold params g"
    by (simp add: validate_def)
next
  have show_err: "validate_show choice predict m threshold test st \<noteq> Inl (FileNotFoundError q)"
    for st
    by (auto simp: validate_show_def np_index_def bindE_def Let_def
        split: prod.splits list.splits if_splits sum.splits)
  have loop_err: "for_loop (\<lambda>i. validate_show choice predict m threshold test) xs st
      \<noteq> Inl (FileNotFoundError q)" for xs :: "nat list" and st
  proof (induction xs arbitrary: st)
    case Nil
    show ?case by simp
  next
    case (Cons x xs)
    show ?case
    proof (cases "validate_show choice predict m threshold test st")
      case (Inl e)
      then show ?thesis using show_err [of st] by simp
    next
      case (Inr st')
      then show ?thesis using Cons [of st'] by simp
    qed
  qed
  show "validate choice predict VR fs test path (Some m) threshold params g
      \<noteq> Inl (FileNotFoundError q)"
    using loop_err [of "[0..<5]" "(g, [])"]
    by (auto simp: validate_def lookup_def bindE_def split: sum.splits option.splits prod.splits)
qed

text \<open>Without a model the path is read, and a missing file is an error.\<close>

lemma validate_loads_only_without_model:
  "validate (\<lambda>g n. (0, g)) (\<lambda>m x. x) (\<lambda>k d m. m) Map.empty
      (\<lparr>shape = [1, 1, 1, 1], buf = [3/4]\<rparr>, \<lparr>shape = [1, 1, 1, 1], buf = [1]\<rparr>)
      ''missing.pth'' (None :: nat option) None \<lparr>v_vis = Some True, v_metrics = Some ()\<rparr> ()
     = Inl (FileNotFoundError ''missing.pth'')
 \<and> validate (\<lambda>g n. (0, g)) (\<lambda>m x. x) (\<lambda>k d m. m) Map.empty
      (\<lparr>shape = [1, 1, 1, 1], buf = [3/4]\<rparr>, \<lparr>shape = [1, 1, 1, 1], buf = [1]\<rparr>)
      ''missing.pth'' (Some (7::nat)) None \<lparr>v_vis = Some False, v_metrics = Some ()\<rparr> ()
     = Inr \<lparr>shown = [], logs = 7, rng = ()\<rparr>"
  by (simp add: validate_def torch_load_def lookup_def)

section \<open>Properties of \<open>augmentation\<close>\<close>

lemma chunk_length: "(i + 1) * s \<le> length xs \<Longrightarrow> length (chunk s i xs) = s"
  by (simp add: chunk_def)

lemma chunk_append_left: "(i + 1) * s \<le> length xs \<Longrightarrow> chunk s i (xs @ ys) = chunk s i xs"
  by (simp add: chunk_def)

lemma chunk_append_right: "length xs = n * s \<Longrightarrow> chunk s (n + i) (xs @ ys) = chunk s i ys"
  by (simp add: chunk_def add_mult_distrib)

lemma chunk_zero: "chunk s 0 xs = take s xs"
  by (simp add: chunk_def)

lemma concat_map_length:
  "(\<And>j. j < n \<Longrightarrow> length (h j) = s) \<Longrightarrow> length (concat (map h [0..<n])) = n * s"
  by (induction n) simp_all

lemma chunk_concat_map:
  assumes "\<And>j. j < n \<Longrightarrow> length (h j) = s" and "i < n"
  shows "chunk s i (concat (map h [0..<n])) = h i"
  using assms
proof (induction n)
  case 0
  then show ?case by simp
next
  case (Suc n)
  have len: "length (concat (map h [0..<n])) = n * s"
    using Suc.prems(1) by (intro concat_map_length) simp
  show ?case
  proof (cases "i < n")
    case True
    have "(i + 1) * s \<le> n * s" using True by (intro mult_le_mono1) simp
    then have "chunk s i (concat (map h [0..<n]) @ h n) = chunk s i (concat (map h [0..<n]))"
      using len by (intro chunk_append_left) simp
    then show ?thesis using Suc.IH [OF _ True] Suc.prems(1) by simp
  next
    case False
    then have "i = n" using Suc.prems(2) by simp
    moreover have "chunk s (n + 0) (concat (map h [0..<n]) @ h n) = chunk s 0 (h n)"
      using len by (rule chunk_append_right)
    moreover have "length (h n) = s" using Suc.prems(1) by simp
    ultimately show ?thesis by (simp add: chunk_zero)
  qed
qed

lemma chunk_in_range:
  assumes "length xs = n * s" and "i < n"
  shows "(i + 1) * s \<le> length xs"
proof -
  have "(i + 1) * s \<le> n * s" using assms(2) by (intro mult_le_mono1) simp
  then show ?thesis using assms(1) by simp
qed


lemma wf_row_length:
  assumes "wf_array a" and "shape a = n # rest" and "i < n"
  shows "length (chunk (prod_list rest) i (buf a)) = prod_list rest"
proof -
  have "length (buf a) = n * prod_list rest" using assms(1,2) by (simp add: wf_array_def)
  from chunk_in_range [OF this assms(3)] show ?thesis by (rule chunk_length)
qed

lemma stacked_value:
  assumes "shape f = n # c # r" and "shape t = n # l # r"
  shows "np_concatenate1 f t =
     Inr \<lparr>shape = n # (c + l) # r,
          buf = concat (map (\<lambda>i. chunk (c * prod_list r) i (buf f)
                                @ chunk (l * prod_list r) i (buf t)) [0..<n])\<rparr>"
  using assms by (simp add: np_concatenate1_def)

lemma stacked_row:
  assumes sf: "shape f = n # c # r" and st: "shape t = n # l # r"
    and wf: "wf_array f" and wt: "wf_array t" and i: "i < n"
  defines "stacked \<equiv> \<lparr>shape = n # (c + l) # r,
          buf = concat (map (\<lambda>i. chunk (c * prod_list r) i (buf f)
                                @ chunk (l * prod_list r) i (buf t)) [0..<n])\<rparr>"
  shows "np_index stacked i =
     Inr \<lparr>shape = (c + l) # r,
          buf = chunk (c * prod_list r) i (buf f) @ chunk (l * prod_list r) i (buf t)\<rparr>"
proof -
  have lf: "length (chunk (c * prod_list r) j (buf f)) = c * prod_list r" if "j < n" for j
    using wf_row_length [OF wf sf that] by simp
  have lt: "length (chunk (l * prod_list r) j (buf t)) = l * prod_list r" if "j < n" for j
    using wf_row_length [OF wt st that] by simp
  have "chunk ((c + l) * prod_list r) i
          (concat (map (\<lambda>i. chunk (c * prod_list r) i (buf f)
                             @ chunk (l * prod_list r) i (buf t)) [0..<n]))
        = chunk (c * prod_list r) i (buf f) @ chunk (l * prod_list r) i (buf t)"
    by (rule chunk_concat_map) (simp_all add: lf lt i add_mult_distrib)
  then show ?thesis using i by (simp add: np_index_def stacked_def)
qed

lemma stacked_image:
  assumes sf: "shape f = n # c # r" and st: "shape t = n # l # r"
    and wf: "wf_array f" and wt: "wf_array t" and i: "i < n" and r: "2 \<le> length r"
  defines "stacked \<equiv> \<lparr>shape = n # (c + l) # r,
          buf = concat (map (\<lambda>i. chunk (c * prod_list r) i (buf f)
                                @ chunk (l * prod_list r) i (buf t)) [0..<n])\<rparr>"
  shows "np_item_slice stacked i 0 c 2 = Inr (row f i)"
proof -
  have lf: "length (chunk (c * prod_list r) i (buf f)) = c * prod_list r"
    using wf_row_length [OF wf sf i] by simp
  have ndim: "\<not> length (shape stacked) < 2 + 2" using r by (simp add: stacked_def)
  show ?thesis
    unfolding np_item_slice_def
    using ndim stacked_row [OF sf st wf wt i] lf sf
    by (simp add: stacked_def [symmetric] row_def)
qed

lemma stacked_mask:
  assumes sf: "shape f = n # c # r" and st: "shape t = n # l # r"
    and wf: "wf_array f" and wt: "wf_array t" and i: "i < n" and r: "2 \<le> length r"
    and l: "1 \<le> l"
  defines "stacked \<equiv> \<lparr>shape = n # (c + l) # r,
          buf = concat (map (\<lambda>i. chunk (c * prod_list r) i (buf f)
                                @ chunk (l * prod_list r) i (buf t)) [0..<n])\<rparr>"
  shows "np_item stacked [i, c] 2 = Inr (row (row t i) 0)"
proof -
  have lf: "length (chunk (c * prod_list r) i (buf f)) = c * prod_list r"
    using wf_row_length [OF wf sf i] by simp
  have ndim: "\<not> length (shape stacked) < length [i, c] + 2" using r by (simp add: stacked_def)
  have "chunk (prod_list r) c
          (chunk (c * prod_list r) i (buf f) @ chunk (l * prod_list r) i (buf t))
        = chunk (prod_list r) 0 (chunk (l * prod_list r) i (buf t))"
    using chunk_append_right [of "chunk (c * prod_list r) i (buf f)" c "prod_list r" 0] lf
    by simp
  then show ?thesis
    unfolding np_item_def
    using ndim stacked_row [OF sf st wf wt i] st l
    by (simp add: stacked_def [symmetric] row_def np_index_def)
qed

lemma stack_rows_one: "shape (h 0) = sh \<Longrightarrow> np_array1 (h 0) = stack_rows sh h (Suc 0)"
  by (simp add: np_array1_def stack_rows_def)

lemma stack_rows_next:
  "shape (h k) = sh \<Longrightarrow>
     np_concatenate0 (stack_rows sh h k) (np_array1 (h k)) = Inr (stack_rows sh h (Suc k))"
  by (simp add: np_concatenate0_def np_array1_def stack_rows_def)

lemma aug_plots_ok:
  assumes row: "np_index stacked i = Inr \<lparr>shape = (c + l) # r, buf = b\<rparr>"
    and sh: "shape stacked = n # (c + l) # r"
    and af: "shape af = c # r" and al: "shape al = 1 # r"
    and r: "2 \<le> length r" and c: "2 \<le> c" and l: "1 \<le> l"
  shows "\<exists>ps. aug_plots stacked i af al = Inr ps"
  using assms
  by (simp add: aug_plots_def np_item_def np_index_def)


lemma transformations_unfold:
  "T (gen_before T g0 d i) (row (fst d) i) (sample_mask (snd d) i)
     = ((fst (transformed T g0 d i), snd (transformed T g0 d i)), gen_before T g0 d (Suc i))"
  by (simp add: transformed_def)

lemma transformed_shapes:
  assumes "shape_preserving T" and "shape f = n # c # r" and "shape t = n # l # r"
  shows "shape (fst (transformed T g0 (f, t) i)) = c # r"
    and "shape (snd (transformed T g0 (f, t) i)) = 1 # r"
  using assms
  by (simp_all add: shape_preserving_def transformed_def row_def sample_mask_def np_array1_def)

lemma aug_body_unfold:
  assumes "tuple_index fshape 1 = Inr c"
    and "np_item_slice stacked i 0 c 2 = Inr img"
    and "np_item stacked [i, c] 2 = Inr mask0"
    and "T (gen s) img (np_array1 mask0) = ((af, al), g')"
    and "(if vis then aug_plots stacked i af al else Inr []) = Inr ps"
  shows "aug_body T vis fshape stacked i s =
     (if i = 0
      then Inr \<lparr>gen = g', augmented_all_features = Some (np_array1 af),
                augmented_all_labels = Some (np_array1 al), displayed = displayed s @ ps\<rparr>
      else
        bindE (read_var ''augmented_all_features'' (augmented_all_features s)) (\<lambda>all_f.
        bindE (np_concatenate0 all_f (np_array1 af)) (\<lambda>all_f'.
        bindE (read_var ''augmented_all_labels'' (augmented_all_labels s)) (\<lambda>all_l.
        bindE (np_concatenate0 all_l (np_array1 al)) (\<lambda>all_l'.
        Inr \<lparr>gen = g', augmented_all_features = Some all_f',
             augmented_all_labels = Some all_l', displayed = displayed s @ ps\<rparr>)))))"
  using assms by (simp add: aug_body_def Let_def)

lemma aug_body_step:
  assumes sf: "shape f = n # c # r" and st: "shape t = n # l # r"
    and wf: "wf_array f" and wt: "wf_array t"
    and r: "2 \<le> length r" and l: "1 \<le> l"
    and T: "shape_preserving T" and vis: "vis \<longrightarrow> 2 \<le> c"
    and i: "i < n" and g: "gen s = gen_before T g0 (f, t) i"
    and acc: "0 < i \<longrightarrow>
        augmented_all_features s = Some (stack_rows (c # r) (\<lambda>j. fst (transformed T g0 (f, t) j)) i)
      \<and> augmented_all_labels s = Some (stack_rows (1 # r) (\<lambda>j. snd (transformed T g0 (f, t) j)) i)"
  defines "stacked \<equiv> \<lparr>shape = n # (c + l) # r,
          buf = concat (map (\<lambda>i. chunk (c * prod_list r) i (buf f)
                                @ chunk (l * prod_list r) i (buf t)) [0..<n])\<rparr>"
  shows "\<exists>ps. aug_body T vis (shape f) stacked i s =
     Inr \<lparr>gen = gen_before T g0 (f, t) (Suc i),
          augmented_all_features =
            Some (stack_rows (c # r) (\<lambda>j. fst (transformed T g0 (f, t) j)) (Suc i)),
          augmented_all_labels =
            Some (stack_rows (1 # r) (\<lambda>j. snd (transformed T g0 (f, t) j)) (Suc i)),
          displayed = displayed s @ ps\<rparr>"
proof -
  define hf where "hf j = fst (transformed T g0 (f, t) j)" for j
  define hl where "hl j = snd (transformed T g0 (f, t) j)" for j
  define G where "G = gen_before T g0 (f, t) (Suc i)"
  have shp: "shape (hf j) = c # r" "shape (hl j) = 1 # r" for j
    using transformed_shapes [OF T sf st, of g0 j] by (simp_all add: hf_def hl_def)
  have img: "np_item_slice stacked i 0 c 2 = Inr (row f i)"
    unfolding stacked_def by (rule stacked_image [OF sf st wf wt i r])
  have msk: "np_item stacked [i, c] 2 = Inr (row (row t i) 0)"
    unfolding stacked_def by (rule stacked_mask [OF sf st wf wt i r l])
  have tup: "tuple_index (shape f) 1 = Inr c" using sf by (simp add: tuple_index_def)
  have call: "T (gen s) (row f i) (np_array1 (row (row t i) 0)) = ((hf i, hl i), G)"
    using transformations_unfold [of T g0 "(f, t)" i] g
    by (simp add: sample_mask_def hf_def hl_def G_def)
  have "\<exists>ps. (if vis then aug_plots stacked i (hf i) (hl i) else Inr []) = Inr ps"
  proof (cases vis)
    case True
    have rowi: "np_index stacked i = Inr \<lparr>shape = (c + l) # r,
        buf = chunk (c * prod_list r) i (buf f) @ chunk (l * prod_list r) i (buf t)\<rparr>"
      unfolding stacked_def by (rule stacked_row [OF sf st wf wt i])
    have "shape stacked = n # (c + l) # r" by (simp add: stacked_def)
    from aug_plots_ok [OF rowi this shp(1) shp(2) r _ l] True vis show ?thesis by simp
  next
    case False
    then show ?thesis by simp
  qed
  then obtain ps where ps: "(if vis then aug_plots stacked i (hf i) (hl i) else Inr []) = Inr ps"
    by blast
  note body = aug_body_unfold [where T = T and s = s, OF tup img msk call ps]
  have "aug_body T vis (shape f) stacked i s =
     Inr \<lparr>gen = G, augmented_all_features = Some (stack_rows (c # r) hf (Suc i)),
          augmented_all_labels = Some (stack_rows (1 # r) hl (Suc i)),
          displayed = displayed s @ ps\<rparr>"
  proof (cases "i = 0")
    case True
    have "np_array1 (hf i) = stack_rows (c # r) hf (Suc i)"
      using stack_rows_one [of hf, OF shp(1)] True by simp
    moreover have "np_array1 (hl i) = stack_rows (1 # r) hl (Suc i)"
      using stack_rows_one [of hl, OF shp(2)] True by simp
    ultimately show ?thesis unfolding body using True by simp
  next
    case False
    have af: "augmented_all_features s = Some (stack_rows (c # r) hf i)"
      and al: "augmented_all_labels s = Some (stack_rows (1 # r) hl i)"
      using acc False unfolding hf_def hl_def by simp_all
    have cf: "np_concatenate0 (stack_rows (c # r) hf i) (np_array1 (hf i))
        = Inr (stack_rows (c # r) hf (Suc i))"
      using shp(1) by (rule stack_rows_next)
    have cl: "np_concatenate0 (stack_rows (1 # r) hl i) (np_array1 (hl i))
        = Inr (stack_rows (1 # r) hl (Suc i))"
      using shp(2) by (rule stack_rows_next)
    show ?thesis unfolding body using False af al cf cl by (simp add: read_var_def)
  qed
  then show ?thesis unfolding hf_def hl_def G_def by blast
qed


lemma aug_loop:
  assumes sf: "shape f = n # c # r" and st: "shape t = n # l # r"
    and wf: "wf_array f" and wt: "wf_array t"
    and r: "2 \<le> length r" and l: "1 \<le> l"
    and T: "shape_preserving T" and vis: "vis \<longrightarrow> 2 \<le> c"
  defines "stacked \<equiv> \<lparr>shape = n # (c + l) # r,
          buf = concat (map (\<lambda>i. chunk (c * prod_list r) i (buf f)
                                @ chunk (l * prod_list r) i (buf t)) [0..<n])\<rparr>"
  shows "k \<le> n \<Longrightarrow>
     \<exists>ps. for_loop (aug_body T vis (shape f) stacked) [0..<k]
            \<lparr>gen = g0, augmented_all_features = None, augmented_all_labels = None,
              displayed = []\<rparr> =
       Inr \<lparr>gen = gen_before T g0 (f, t) k,
            augmented_all_features =
              (if k = 0 then None
               else Some (stack_rows (c # r) (\<lambda>j. fst (transformed T g0 (f, t) j)) k)),
            augmented_all_labels =
              (if k = 0 then None
               else Some (stack_rows (1 # r) (\<lambda>j. snd (transformed T g0 (f, t) j)) k)),
            displayed = ps\<rparr>"
proof (induction k)
  case 0
  show ?case by simp
next
  case (Suc k)
  let ?s0 = "\<lparr>gen = g0, augmented_all_features = None, augmented_all_labels = None,
              displayed = []\<rparr> :: ('a, 'b) aug_state"
  from Suc obtain ps where
    run: "for_loop (aug_body T vis (shape f) stacked) [0..<k] ?s0 =
       Inr \<lparr>gen = gen_before T g0 (f, t) k,
            augmented_all_features =
              (if k = 0 then None
               else Some (stack_rows (c # r) (\<lambda>j. fst (transformed T g0 (f, t) j)) k)),
            augmented_all_labels =
              (if k = 0 then None
               else Some (stack_rows (1 # r) (\<lambda>j. snd (transformed T g0 (f, t) j)) k)),
            displayed = ps\<rparr>" (is "_ = Inr ?sk")
    by auto
  have k: "k < n" using Suc.prems by simp
  have g: "gen ?sk = gen_before T g0 (f, t) k" by simp
  have acc: "0 < k \<longrightarrow>
        augmented_all_features ?sk
          = Some (stack_rows (c # r) (\<lambda>j. fst (transformed T g0 (f, t) j)) k)
      \<and> augmented_all_labels ?sk
          = Some (stack_rows (1 # r) (\<lambda>j. snd (transformed T g0 (f, t) j)) k)"
    by simp
  from aug_body_step [OF sf st wf wt r l T vis k g acc, folded stacked_def]
  obtain ps' where step: "aug_body T vis (shape f) stacked k ?sk =
     Inr \<lparr>gen = gen_before T g0 (f, t) (Suc k),
          augmented_all_features =
            Some (stack_rows (c # r) (\<lambda>j. fst (transformed T g0 (f, t) j)) (Suc k)),
          augmented_all_labels =
            Some (stack_rows (1 # r) (\<lambda>j. snd (transformed T g0 (f, t) j)) (Suc k)),
          displayed = displayed ?sk @ ps'\<rparr>"
    by blast
  have "for_loop (aug_body T vis (shape f) stacked) [0..<Suc k] ?s0
      = aug_body T vis (shape f) stacked k ?sk"
    using run by (simp add: for_loop_snoc)
  then show ?case unfolding step by simp
qed

lemma augmentation_run:
  assumes sf: "shape f = n # c # r" and st: "shape t = n # l # r"
    and wf: "wf_array f" and wt: "wf_array t"
    and r: "2 \<le> length r" and l: "1 \<le> l"
    and T: "shape_preserving T" and vis: "vis \<longrightarrow> 2 \<le> c"
    and n: "1 \<le> n"
  shows "\<exists>ps. augmentation T seed vis g0 (f, t) =
     (if l = 1
      then Inr ((\<lparr>shape = (n + n) # c # r,
                  buf = buf f @ buf (stack_rows (c # r)
                                      (\<lambda>j. fst (transformed T (seed 7) (f, t) j)) n)\<rparr>,
                 \<lparr>shape = (n + n) # 1 # r,
                  buf = buf t @ buf (stack_rows (1 # r)
                                      (\<lambda>j. snd (transformed T (seed 7) (f, t) j)) n)\<rparr>),
                ps, gen_before T (seed 7) (f, t) n)
      else Inl (ValueError dims_message))"
proof -
  from aug_loop [OF sf st wf wt r l T vis, of n "seed 7"] obtain ps where
    run: "for_loop (aug_body T vis (shape f)
             \<lparr>shape = n # (c + l) # r,
               buf = concat (map (\<lambda>i. chunk (c * prod_list r) i (buf f)
                                @ chunk (l * prod_list r) i (buf t)) [0..<n])\<rparr>) [0..<n]
            \<lparr>gen = seed 7, augmented_all_features = None, augmented_all_labels = None,
              displayed = []\<rparr> =
       Inr \<lparr>gen = gen_before T (seed 7) (f, t) n,
            augmented_all_features =
              (if n = 0 then None
               else Some (stack_rows (c # r) (\<lambda>j. fst (transformed T (seed 7) (f, t) j)) n)),
            augmented_all_labels =
              (if n = 0 then None
               else Some (stack_rows (1 # r) (\<lambda>j. snd (transformed T (seed 7) (f, t) j)) n)),
            displayed = ps\<rparr>"
    by auto
  define AF where "AF = stack_rows (c # r) (\<lambda>j. fst (transformed T (seed 7) (f, t) j)) n"
  define AL where "AL = stack_rows (1 # r) (\<lambda>j. snd (transformed T (seed 7) (f, t) j)) n"
  have run': "for_loop (aug_body T vis (shape f)
             \<lparr>shape = n # (c + l) # r,
               buf = concat (map (\<lambda>i. chunk (c * prod_list r) i (buf f)
                                @ chunk (l * prod_list r) i (buf t)) [0..<n])\<rparr>) [0..<n]
            \<lparr>gen = seed 7, augmented_all_features = None, augmented_all_labels = None,
              displayed = []\<rparr> =
       Inr \<lparr>gen = gen_before T (seed 7) (f, t) n, augmented_all_features = Some AF,
            augmented_all_labels = Some AL, displayed = ps\<rparr>"
    using run n unfolding AF_def AL_def by simp
  have len: "np_len f = Inr n" using sf by (simp add: np_len_def)
  have cf: "np_concatenate0 f AF = Inr \<lparr>shape = (n + n) # c # r, buf = buf f @ buf AF\<rparr>"
    using sf by (simp add: np_concatenate0_def stack_rows_def AF_def)
  have ct: "np_concatenate0 t AL
      = (if l = 1 then Inr \<lparr>shape = (n + n) # 1 # r, buf = buf t @ buf AL\<rparr>
         else Inl (ValueError dims_message))"
    using st by (simp add: np_concatenate0_def stack_rows_def AL_def)
  have "augmentation T seed vis g0 (f, t) =
     (if l = 1
      then Inr ((\<lparr>shape = (n + n) # c # r, buf = buf f @ buf AF\<rparr>,
                 \<lparr>shape = (n + n) # 1 # r, buf = buf t @ buf AL\<rparr>),
                ps, gen_before T (seed 7) (f, t) n)
      else Inl (ValueError dims_message))"
    using len run' stacked_value [OF sf st]
    by (simp add: augmentation_def Let_def read_var_def cf ct TensorDataset_def)
  then show ?thesis unfolding AF_def AL_def by blast
qed

lemma transformed_lengths:
  assumes T: "shape_preserving T" and sf: "shape f = n # c # r" and st: "shape t = n # l # r"
    and wf: "wf_array f" and wt: "wf_array t" and l: "1 \<le> l" and i: "i < n"
  shows "length (buf (fst (transformed T g0 (f, t) i))) = c * prod_list r"
    and "length (buf (snd (transformed T g0 (f, t) i))) = prod_list r"
proof -
  have lf: "length (chunk (c * prod_list r) i (buf f)) = c * prod_list r"
    using wf_row_length [OF wf sf i] by simp
  have lt: "length (chunk (l * prod_list r) i (buf t)) = l * prod_list r"
    using wf_row_length [OF wt st i] by simp
  have "prod_list r \<le> l * prod_list r" using l by simp
  then have "(0 + 1) * prod_list r \<le> length (chunk (l * prod_list r) i (buf t))"
    using lt by simp
  then have lm: "length (chunk (prod_list r) 0 (chunk (l * prod_list r) i (buf t))) = prod_list r"
    by (rule chunk_length)
  show "length (buf (fst (transformed T g0 (f, t) i))) = c * prod_list r"
    using T lf sf by (simp add: shape_preserving_def transformed_def row_def)
  show "length (buf (snd (transformed T g0 (f, t) i))) = prod_list r"
    using T lm st
    by (simp add: shape_preserving_def transformed_def row_def sample_mask_def np_array1_def)
qed

lemma doubled_rows:
  assumes len: "length (buf a) = n * s" and h: "\<And>j. j < n \<Longrightarrow> length (buf (h j)) = s"
    and sh: "\<And>j. shape (h j) = sh" and s: "s = prod_list sh" and i: "i < n"
    and a: "shape a = n # sh"
  defines "d \<equiv> \<lparr>shape = (n + n) # sh, buf = buf a @ buf (stack_rows sh h n)\<rparr>"
  shows "np_index d i = np_index a i" and "np_index d (n + i) = Inr (h i)"
proof -
  have "chunk s i (buf a @ buf (stack_rows sh h n)) = chunk s i (buf a)"
    using chunk_in_range [OF len i] by (rule chunk_append_left)
  then show "np_index d i = np_index a i"
    using i a s by (simp add: np_index_def d_def)
  have "chunk s (n + i) (buf a @ buf (stack_rows sh h n)) = chunk s i (buf (stack_rows sh h n))"
    using len by (rule chunk_append_right)
  also have "\<dots> = buf (h i)"
    unfolding stack_rows_def using h i by (simp add: chunk_concat_map)
  finally show "np_index d (n + i) = Inr (h i)"
    using i s sh [of i] by (simp add: np_index_def d_def)
qed

text \<open>
  Claim C3. The dataset has \<open>n \<ge> 1\<close> samples, features of shape \<open>(n, c, ...)\<close> and
  labels of shape \<open>(n, 1, ...)\<close> over the same two or more trailing axes, and the
  transforms keep the shape of what they are given (with \<open>vis\<close>, the plots need two
  feature channels). Then \<open>augmentation\<close> returns a dataset of \<open>2n\<close> samples whose
  features and labels have the channel and spatial dimensions of the input; sample
  \<open>i < n\<close> is sample \<open>i\<close> of the input, and sample \<open>n + i\<close> is the transformed copy of
  sample \<open>i\<close>, which has the shape of sample \<open>i\<close>.
\<close>

theorem augmentation_doubles:
  assumes sf: "shape f = n # c # r" and st: "shape t = n # 1 # r"
    and wf: "wf_array f" and wt: "wf_array t"
    and r: "2 \<le> length r"
    and T: "shape_preserving T" and vis: "vis \<longrightarrow> 2 \<le> c"
    and n: "1 \<le> n"
  shows "\<exists>fs ts ps g.
      augmentation T seed vis g0 (f, t) = Inr ((fs, ts), ps, g)
    \<and> ds_len (fs, ts) = 2 * n
    \<and> shape fs = (2 * n) # c # r
    \<and> shape ts = (2 * n) # 1 # r
    \<and> (\<forall>i<n. np_index fs i = np_index f i
             \<and> np_index ts i = np_index t i
             \<and> np_index fs (n + i) = Inr (fst (transformed T (seed 7) (f, t) i))
             \<and> np_index ts (n + i) = Inr (snd (transformed T (seed 7) (f, t) i))
             \<and> shape (fst (transformed T (seed 7) (f, t) i)) = c # r
             \<and> shape (snd (transformed T (seed 7) (f, t) i)) = 1 # r)"
proof -
  define hf where "hf j = fst (transformed T (seed 7) (f, t) j)" for j
  define hl where "hl j = snd (transformed T (seed 7) (f, t) j)" for j
  define fs where "fs = \<lparr>shape = (n + n) # c # r, buf = buf f @ buf (stack_rows (c # r) hf n)\<rparr>"
  define ts where "ts = \<lparr>shape = (n + n) # 1 # r, buf = buf t @ buf (stack_rows (1 # r) hl n)\<rparr>"
  have l: "(1::nat) \<le> 1" by simp
  from augmentation_run [OF sf st wf wt r l T vis n, of seed g0] obtain ps where
    run: "augmentation T seed vis g0 (f, t) = Inr ((fs, ts), ps, gen_before T (seed 7) (f, t) n)"
    unfolding fs_def ts_def hf_def hl_def by auto
  have shp: "shape (hf j) = c # r" "shape (hl j) = 1 # r" for j
    using transformed_shapes [OF T sf st, of "seed 7" j] by (simp_all add: hf_def hl_def)
  have lens: "length (buf (hf j)) = c * prod_list r" "length (buf (hl j)) = prod_list r"
    if "j < n" for j
    using transformed_lengths [OF T sf st wf wt l that, of "seed 7"]
    by (simp_all add: hf_def hl_def)
  have lf: "length (buf f) = n * (c * prod_list r)" using wf sf by (simp add: wf_array_def)
  have lt: "length (buf t) = n * prod_list r" using wt st by (simp add: wf_array_def)
  have rows_f: "np_index fs i = np_index f i \<and> np_index fs (n + i) = Inr (hf i)" if "i < n" for i
    using doubled_rows [of f n "c * prod_list r" hf "c # r" i, OF lf lens(1) shp(1) _ that sf]
    unfolding fs_def by simp
  have rows_t: "np_index ts i = np_index t i \<and> np_index ts (n + i) = Inr (hl i)" if "i < n" for i
    using doubled_rows [of t n "prod_list r" hl "1 # r" i, OF lt lens(2) shp(2) _ that st]
    unfolding ts_def by simp
  have "ds_len (fs, ts) = 2 * n" by (simp add: ds_len_def fs_def)
  moreover have "shape fs = (2 * n) # c # r" by (simp add: fs_def)
  moreover have "shape ts = (2 * n) # 1 # r" by (simp add: ts_def)
  ultimately show ?thesis
    using run rows_f rows_t shp unfolding hf_def hl_def by blast
qed


theorem augmentation_doubles_witness:
  "\<exists>fs ts ps g.
      augmentation (\<lambda>g img msk. ((img\<lparr>buf := rev (buf img)\<rparr>, msk\<lparr>buf := rev (buf msk)\<rparr>), Suc g)) nat True (0::nat) (\<lparr>shape = [2, 2, 1, 2], buf = [1, 2, 3, 4, 5, 6, 7, 8::int]\<rparr>, \<lparr>shape = [2, 1, 1, 2], buf = [10, 11, 12, 13::int]\<rparr>) = Inr ((fs, ts), ps, g)
    \<and> ds_len (fs, ts) = 2 * 2
    \<and> shape fs = (2 * 2) # 2 # [1, 2]
    \<and> shape ts = (2 * 2) # 1 # [1, 2]
    \<and> (\<forall>i<2. np_index fs i = np_index \<lparr>shape = [2, 2, 1, 2], buf = [1, 2, 3, 4, 5, 6, 7, 8::int]\<rparr> i
             \<and> np_index ts i = np_index \<lparr>shape = [2, 1, 1, 2], buf = [10, 11, 12, 13::int]\<rparr> i
             \<and> np_index fs (2 + i) = Inr (fst (transformed (\<lambda>g img msk. ((img\<lparr>buf := rev (buf img)\<rparr>, msk\<lparr>buf := rev (buf msk)\<rparr>), Suc g)) (nat 7) (\<lparr>shape = [2, 2, 1, 2], buf = [1, 2, 3, 4, 5, 6, 7, 8::int]\<rparr>, \<lparr>shape = [2, 1, 1, 2], buf = [10, 11, 12, 13::int]\<rparr>) i))
             \<and> np_index ts (2 + i) = Inr (snd (transformed (\<lambda>g img msk. ((img\<lparr>buf := rev (buf img)\<rparr>, msk\<lparr>buf := rev (buf msk)\<rparr>), Suc g)) (nat 7) (\<lparr>shape = [2, 2, 1, 2], buf = [1, 2, 3, 4, 5, 6, 7, 8::int]\<rparr>, \<lparr>shape = [2, 1, 1, 2], buf = [10, 11, 12, 13::int]\<rparr>) i))
             \<and> shape (fst (transformed (\<lambda>g img msk. ((img\<lparr>buf := rev (buf img)\<rparr>, msk\<lparr>buf := rev (buf msk)\<rparr>), Suc g)) (nat 7) (\<lparr>shape = [2, 2, 1, 2], buf = [1, 2, 3, 4, 5, 6, 7, 8::int]\<rparr>, \<lparr>shape = [2, 1, 1, 2], buf = [10, 11, 12, 13::int]\<rparr>) i)) = 2 # [1, 2]
             \<and> shape (snd (transformed (\<lambda>g img msk. ((img\<lparr>buf := rev (buf img)\<rparr>, msk\<lparr>buf := rev (buf msk)\<rparr>), Suc g)) (nat 7) (\<lparr>shape = [2, 2, 1, 2], buf = [1, 2, 3, 4, 5, 6, 7, 8::int]\<rparr>, \<lparr>shape = [2, 1, 1, 2], buf = [10, 11, 12, 13::int]\<rparr>) i)) = 1 # [1, 2])"
proof -
  have h1: "shape \<lparr>shape = [2, 2, 1, 2], buf = [1, 2, 3, 4, 5, 6, 7, 8::int]\<rparr> = 2 # 2 # [1, 2]" by simp
  have h2: "shape \<lparr>shape = [2, 1, 1, 2], buf = [10, 11, 12, 13::int]\<rparr> = 2 # 1 # [1, 2]" by simp
  have h3: "wf_array \<lparr>shape = [2, 2, 1, 2], buf = [1, 2, 3, 4, 5, 6, 7, 8::int]\<rparr>" by (simp add: wf_array_def)
  have h4: "wf_array \<lparr>shape = [2, 1, 1, 2], buf = [10, 11, 12, 13::int]\<rparr>" by (simp add: wf_array_def)
  have h5: "2 \<le> length [1, 2::nat]" by simp
  have h6: "shape_preserving (\<lambda>g img msk. ((img\<lparr>buf := rev (buf img)\<rparr>, msk\<lparr>buf := rev (buf msk)\<rparr>), Suc g))"
    by (simp add: shape_preserving_def)
  have h7: "True \<longrightarrow> 2 \<le> (2::nat)" by simp
  have h8: "1 \<le> (2::nat)" by simp
  show ?thesis
    by (rule augmentation_doubles [OF h1 h2 h3 h4 h5 h6 h7 h8, where seed = nat and ?g0.0 = 0])
qed

text \<open>A run on two samples with a transform that reverses each buffer.\<close>

lemma augmentation_example_run:
  "augmentation (\<lambda>g img msk. ((img\<lparr>buf := rev (buf img)\<rparr>, msk\<lparr>buf := rev (buf msk)\<rparr>), Suc g)) nat False (0::nat) (\<lparr>shape = [2, 2, 1, 2], buf = [1, 2, 3, 4, 5, 6, 7, 8::int]\<rparr>, \<lparr>shape = [2, 1, 1, 2], buf = [10, 11, 12, 13::int]\<rparr>)
    = Inr ((\<lparr>shape = [4, 2, 1, 2],
              buf = [1, 2, 3, 4, 5, 6, 7, 8, 4, 3, 2, 1, 8, 7, 6, 5]\<rparr>,
            \<lparr>shape = [4, 1, 1, 2], buf = [10, 11, 12, 13, 11, 10, 13, 12]\<rparr>),
           [], 9)"
  by code_simp


text \<open>
  Claim C7. The state the global generator was in before the call plays no part: two
  calls on the same dataset give the same result, whatever that state was. On a
  dataset as in C3 the call leaves the generator in the state reached from
  \<open>random.seed(7)\<close> by the \<open>n\<close> transforms in turn: the first sample is transformed in the
  seeded state and every later one in the state its predecessor left, the generator
  being seeded before the loop and never inside it.
\<close>

theorem augmentation_seeded_once:
  "augmentation T seed vis g0 d = augmentation T seed vis g1 d
 \<and> (shape (fst d) = n # c # r \<and> shape (snd d) = n # 1 # r
      \<and> wf_array (fst d) \<and> wf_array (snd d) \<and> 2 \<le> length r
      \<and> shape_preserving T \<and> (vis \<longrightarrow> 2 \<le> c) \<and> 1 \<le> n
    \<longrightarrow> (\<exists>ds ps. augmentation T seed vis g0 d = Inr (ds, ps, gen_before T (seed 7) d n))
      \<and> gen_before T (seed 7) d 0 = seed 7
      \<and> (\<forall>i<n. gen_before T (seed 7) d (Suc i)
                  = snd (T (gen_before T (seed 7) d i) (row (fst d) i) (sample_mask (snd d) i))))"
proof (intro conjI impI)
  show "augmentation T seed vis g0 d = augmentation T seed vis g1 d"
    by (simp add: augmentation_def)
next
  assume a: "shape (fst d) = n # c # r \<and> shape (snd d) = n # 1 # r
      \<and> wf_array (fst d) \<and> wf_array (snd d) \<and> 2 \<le> length r
      \<and> shape_preserving T \<and> (vis \<longrightarrow> 2 \<le> c) \<and> 1 \<le> n"
  have l: "(1::nat) \<le> 1" by simp
  obtain f t where d: "d = (f, t)" by (cases d)
  from a d have "\<exists>ps. augmentation T seed vis g0 (f, t) =
     (if (1::nat) = 1
      then Inr ((\<lparr>shape = (n + n) # c # r,
                  buf = buf f @ buf (stack_rows (c # r)
                                      (\<lambda>j. fst (transformed T (seed 7) (f, t) j)) n)\<rparr>,
                 \<lparr>shape = (n + n) # 1 # r,
                  buf = buf t @ buf (stack_rows (1 # r)
                                      (\<lambda>j. snd (transformed T (seed 7) (f, t) j)) n)\<rparr>),
                ps, gen_before T (seed 7) (f, t) n)
      else Inl (ValueError dims_message))"
    by (intro augmentation_run) simp_all
  then show "\<exists>ds ps. augmentation T seed vis g0 d = Inr (ds, ps, gen_before T (seed 7) d n)"
    unfolding d by auto
next
  show "gen_before T (seed 7) d 0 = seed 7" by simp
next
  show "\<forall>i<n. gen_before T (seed 7) d (Suc i)
                  = snd (T (gen_before T (seed 7) d i) (row (fst d) i) (sample_mask (snd d) i))"
    by simp
qed

theorem augmentation_seeded_once_witness:
  "augmentation (\<lambda>g img msk. ((img\<lparr>buf := rev (buf img)\<rparr>, msk\<lparr>buf := rev (buf msk)\<rparr>), Suc g)) nat True (0::nat) (\<lparr>shape = [2, 2, 1, 2], buf = [1, 2, 3, 4, 5, 6, 7, 8::int]\<rparr>, \<lparr>shape = [2, 1, 1, 2], buf = [10, 11, 12, 13::int]\<rparr>) = augmentation (\<lambda>g img msk. ((img\<lparr>buf := rev (buf img)\<rparr>, msk\<lparr>buf := rev (buf msk)\<rparr>), Suc g)) nat True 5 (\<lparr>shape = [2, 2, 1, 2], buf = [1, 2, 3, 4, 5, 6, 7, 8::int]\<rparr>, \<lparr>shape = [2, 1, 1, 2], buf = [10, 11, 12, 13::int]\<rparr>)
 \<and> (\<exists>ds ps. augmentation (\<lambda>g img msk. ((img\<lparr>buf := rev (buf img)\<rparr>, msk\<lparr>buf := rev (buf msk)\<rparr>), Suc g)) nat True (0::nat) (\<lparr>shape = [2, 2, 1, 2], buf = [1, 2, 3, 4, 5, 6, 7, 8::int]\<rparr>, \<lparr>shape = [2, 1, 1, 2], buf = [10, 11, 12, 13::int]\<rparr>)
        = Inr (ds, ps, gen_before (\<lambda>g img msk. ((img\<lparr>buf := rev (buf img)\<rparr>, msk\<lparr>buf := rev (buf msk)\<rparr>), Suc g)) (nat 7) (\<lparr>shape = [2, 2, 1, 2], buf = [1, 2, 3, 4, 5, 6, 7, 8::int]\<rparr>, \<lparr>shape = [2, 1, 1, 2], buf = [10, 11, 12, 13::int]\<rparr>) 2))
 \<and> gen_before (\<lambda>g img msk. ((img\<lparr>buf := rev (buf img)\<rparr>, msk\<lparr>buf := rev (buf msk)\<rparr>), Suc g)) (nat 7) (\<lparr>shape = [2, 2, 1, 2], buf = [1, 2, 3, 4, 5, 6, 7, 8::int]\<rparr>, \<lparr>shape = [2, 1, 1, 2], buf = [10, 11, 12, 13::int]\<rparr>) 2 = 9"
proof -
  have h: "shape (fst (\<lparr>shape = [2, 2, 1, 2], buf = [1, 2, 3, 4, 5, 6, 7, 8::int]\<rparr>, \<lparr>shape = [2, 1, 1, 2], buf = [10, 11, 12, 13::int]\<rparr>)) = 2 # 2 # [1, 2] \<and> shape (snd (\<lparr>shape = [2, 2, 1, 2], buf = [1, 2, 3, 4, 5, 6, 7, 8::int]\<rparr>, \<lparr>shape = [2, 1, 1, 2], buf = [10, 11, 12, 13::int]\<rparr>)) = 2 # 1 # [1, 2]
      \<and> wf_array (fst (\<lparr>shape = [2, 2, 1, 2], buf = [1, 2, 3, 4, 5, 6, 7, 8::int]\<rparr>, \<lparr>shape = [2, 1, 1, 2], buf = [10, 11, 12, 13::int]\<rparr>)) \<and> wf_array (snd (\<lparr>shape = [2, 2, 1, 2], buf = [1, 2, 3, 4, 5, 6, 7, 8::int]\<rparr>, \<lparr>shape = [2, 1, 1, 2], buf = [10, 11, 12, 13::int]\<rparr>)) \<and> 2 \<le> length [1, 2::nat]
      \<and> shape_preserving (\<lambda>g img msk. ((img\<lparr>buf := rev (buf img)\<rparr>, msk\<lparr>buf := rev (buf msk)\<rparr>), Suc g)) \<and> (True \<longrightarrow> 2 \<le> (2::nat)) \<and> 1 \<le> (2::nat)"
    by (simp add: wf_array_def shape_preserving_def)
  have g: "gen_before (\<lambda>g img msk. ((img\<lparr>buf := rev (buf img)\<rparr>, msk\<lparr>buf := rev (buf msk)\<rparr>), Suc g)) (nat 7) (\<lparr>shape = [2, 2, 1, 2], buf = [1, 2, 3, 4, 5, 6, 7, 8::int]\<rparr>, \<lparr>shape = [2, 1, 1, 2], buf = [10, 11, 12, 13::int]\<rparr>) 2 = 9" by code_simp
  show ?thesis
    using augmentation_seeded_once [where T = "(\<lambda>g img msk. ((img\<lparr>buf := rev (buf img)\<rparr>, msk\<lparr>buf := rev (buf msk)\<rparr>), Suc g))" and seed = nat and vis = True
        and ?g0.0 = 0 and ?g1.0 = 5 and d = "(\<lparr>shape = [2, 2, 1, 2], buf = [1, 2, 3, 4, 5, 6, 7, 8::int]\<rparr>, \<lparr>shape = [2, 1, 1, 2], buf = [10, 11, 12, 13::int]\<rparr>)" and n = 2 and c = 2 and r = "[1, 2]"]
      h g
    by blast
qed

text \<open>
  Claim C8. On a dataset of zero samples \<open>augmentation\<close> returns nothing: every such
  call raises. When the two tensors can be stacked (features \<open>(0, c, ...)\<close>, labels
  \<open>(0, l, ...)\<close> over the same trailing axes) the loop body never runs and the
  exception is the unbound \<open>augmented_all_features\<close> of the final concatenation.
\<close>

theorem augmentation_empty:
  "(shape (fst d) = 0 # fsh \<and> shape (snd d) = 0 # tsh
      \<longrightarrow> (\<exists>e. augmentation T seed vis g0 d = Inl e))
 \<and> (shape (fst d) = 0 # c # r \<and> shape (snd d) = 0 # l # r
      \<longrightarrow> augmentation T seed vis g0 d = Inl (UnboundLocalError ''augmented_all_features''))"
proof (intro conjI impI)
  assume a: "shape (fst d) = 0 # fsh \<and> shape (snd d) = 0 # tsh"
  then have len: "np_len (fst d) = Inr 0" by (simp add: np_len_def)
  show "\<exists>e. augmentation T seed vis g0 d = Inl e"
  proof (cases "np_concatenate1 (fst d) (snd d)")
    case (Inl e)
    then show ?thesis by (simp add: augmentation_def Let_def)
  next
    case (Inr stacked)
    then show ?thesis using len by (simp add: augmentation_def Let_def read_var_def)
  qed
next
  assume a: "shape (fst d) = 0 # c # r \<and> shape (snd d) = 0 # l # r"
  then have len: "np_len (fst d) = Inr 0" by (simp add: np_len_def)
  from a stacked_value [of "fst d" 0 c r "snd d" l]
  have "\<exists>stacked. np_concatenate1 (fst d) (snd d) = Inr stacked" by simp
  then show "augmentation T seed vis g0 d = Inl (UnboundLocalError ''augmented_all_features'')"
    using len by (auto simp: augmentation_def Let_def read_var_def)
qed

theorem augmentation_empty_witness:
  "(\<exists>e. augmentation (\<lambda>g img msk. ((img\<lparr>buf := rev (buf img)\<rparr>, msk\<lparr>buf := rev (buf msk)\<rparr>), Suc g)) nat False (0::nat) (\<lparr>shape = [0, 2, 1, 2], buf = ([]::int list)\<rparr>, \<lparr>shape = [0, 1, 1, 2], buf = ([]::int list)\<rparr>) = Inl e)
 \<and> augmentation (\<lambda>g img msk. ((img\<lparr>buf := rev (buf img)\<rparr>, msk\<lparr>buf := rev (buf msk)\<rparr>), Suc g)) nat False (0::nat) (\<lparr>shape = [0, 2, 1, 2], buf = ([]::int list)\<rparr>, \<lparr>shape = [0, 1, 1, 2], buf = ([]::int list)\<rparr>)
      = Inl (UnboundLocalError ''augmented_all_features'')"
proof -
  have h: "shape (fst (\<lparr>shape = [0, 2, 1, 2], buf = ([]::int list)\<rparr>, \<lparr>shape = [0, 1, 1, 2], buf = ([]::int list)\<rparr>)) = 0 # 2 # [1, 2] \<and> shape (snd (\<lparr>shape = [0, 2, 1, 2], buf = ([]::int list)\<rparr>, \<lparr>shape = [0, 1, 1, 2], buf = ([]::int list)\<rparr>)) = 0 # 1 # [1, 2]"
    by simp
  show ?thesis
    using augmentation_empty [where T = "(\<lambda>g img msk. ((img\<lparr>buf := rev (buf img)\<rparr>, msk\<lparr>buf := rev (buf msk)\<rparr>), Suc g))" and seed = nat and vis = False and ?g0.0 = 0
        and d = "(\<lparr>shape = [0, 2, 1, 2], buf = ([]::int list)\<rparr>, \<lparr>shape = [0, 1, 1, 2], buf = ([]::int list)\<rparr>)" and fsh = "2 # [1, 2]" and tsh = "1 # [1, 2]"
        and c = 2 and r = "[1, 2]" and l = 1] h
    by blast
qed


text \<open>
  Claim C10. Features \<open>(n, c, ...)\<close> and labels \<open>(n, l, ...)\<close> with \<open>l \<ge> 1\<close> are stacked
  along the channel axis, and the mask of sample \<open>i\<close> is the single channel at index
  \<open>c\<close>, the first label channel; under shape-preserving transforms every transformed
  label has one channel, and so has the accumulated array of labels. With \<open>l > 1\<close> the
  concatenation of the targets with that array fails, and \<open>augmentation\<close> with it; with
  \<open>l = 1\<close> the call returns.
\<close>

theorem augmentation_single_mask_channel:
  assumes sf: "shape f = n # c # r" and st: "shape t = n # l # r"
    and wf: "wf_array f" and wt: "wf_array t"
    and r: "2 \<le> length r" and l: "1 \<le> l"
    and T: "shape_preserving T" and vis: "vis \<longrightarrow> 2 \<le> c"
    and n: "1 \<le> n"
  shows "(\<exists>stacked st.
        np_concatenate1 f t = Inr stacked
      \<and> shape stacked = n # (c + l) # r
      \<and> (\<forall>i<n. np_item stacked [i, c] 2 = Inr (row (row t i) 0)
               \<and> shape (snd (transformed T (seed 7) (f, t) i)) = 1 # r)
      \<and> for_loop (aug_body T vis (shape f) stacked) [0..<n]
            \<lparr>gen = seed 7, augmented_all_features = None, augmented_all_labels = None,
              displayed = []\<rparr> = Inr st
      \<and> augmented_all_labels st
            = Some (stack_rows (1 # r) (\<lambda>j. snd (transformed T (seed 7) (f, t) j)) n))
   \<and> (1 < l \<longrightarrow>
          np_concatenate0 t (stack_rows (1 # r) (\<lambda>j. snd (transformed T (seed 7) (f, t) j)) n)
            = Inl (ValueError dims_message)
        \<and> augmentation T seed vis g0 (f, t) = Inl (ValueError dims_message))
   \<and> (l = 1 \<longrightarrow> (\<exists>res. augmentation T seed vis g0 (f, t) = Inr res))"
proof (intro conjI impI)
  define stacked where "stacked = \<lparr>shape = n # (c + l) # r,
          buf = concat (map (\<lambda>i. chunk (c * prod_list r) i (buf f)
                                @ chunk (l * prod_list r) i (buf t)) [0..<n])\<rparr>"
  have sv: "np_concatenate1 f t = Inr stacked"
    unfolding stacked_def by (rule stacked_value [OF sf st])
  have msk: "np_item stacked [i, c] 2 = Inr (row (row t i) 0)" if "i < n" for i
    unfolding stacked_def by (rule stacked_mask [OF sf st wf wt that r l])
  have shp: "shape (snd (transformed T (seed 7) (f, t) i)) = 1 # r" for i
    by (rule transformed_shapes(2) [OF T sf st])
  from aug_loop [OF sf st wf wt r l T vis, of n "seed 7", folded stacked_def] n
  obtain st' where
    loop: "for_loop (aug_body T vis (shape f) stacked) [0..<n]
            \<lparr>gen = seed 7, augmented_all_features = None, augmented_all_labels = None,
              displayed = []\<rparr> = Inr st'"
    and lab: "augmented_all_labels st'
            = Some (stack_rows (1 # r) (\<lambda>j. snd (transformed T (seed 7) (f, t) j)) n)"
    by auto
  show "\<exists>stacked st.
        np_concatenate1 f t = Inr stacked
      \<and> shape stacked = n # (c + l) # r
      \<and> (\<forall>i<n. np_item stacked [i, c] 2 = Inr (row (row t i) 0)
               \<and> shape (snd (transformed T (seed 7) (f, t) i)) = 1 # r)
      \<and> for_loop (aug_body T vis (shape f) stacked) [0..<n]
            \<lparr>gen = seed 7, augmented_all_features = None, augmented_all_labels = None,
              displayed = []\<rparr> = Inr st
      \<and> augmented_all_labels st
            = Some (stack_rows (1 # r) (\<lambda>j. snd (transformed T (seed 7) (f, t) j)) n)"
    using sv msk shp loop lab by (intro exI [of _ stacked] exI [of _ st']) (simp add: stacked_def)
next
  assume "1 < l"
  then show "np_concatenate0 t (stack_rows (1 # r) (\<lambda>j. snd (transformed T (seed 7) (f, t) j)) n)
            = Inl (ValueError dims_message)"
    using st by (simp add: np_concatenate0_def stack_rows_def)
next
  assume "1 < l"
  then show "augmentation T seed vis g0 (f, t) = Inl (ValueError dims_message)"
    using augmentation_run [OF sf st wf wt r l T vis n, of seed g0] by auto
next
  assume "l = 1"
  then show "\<exists>res. augmentation T seed vis g0 (f, t) = Inr res"
    using augmentation_run [OF sf st wf wt r l T vis n, of seed g0] by auto
qed

theorem augmentation_single_mask_channel_witness:
  "np_concatenate0 \<lparr>shape = [2, 2, 1, 2], buf = [10, 11, 12, 13, 14, 15, 16, 17::int]\<rparr>
      (stack_rows (1 # [1, 2]) (\<lambda>j. snd (transformed (\<lambda>g img msk. ((img\<lparr>buf := rev (buf img)\<rparr>, msk\<lparr>buf := rev (buf msk)\<rparr>), Suc g)) (nat 7) (\<lparr>shape = [2, 2, 1, 2], buf = [1, 2, 3, 4, 5, 6, 7, 8::int]\<rparr>, \<lparr>shape = [2, 2, 1, 2], buf = [10, 11, 12, 13, 14, 15, 16, 17::int]\<rparr>) j)) 2)
     = Inl (ValueError dims_message)
 \<and> augmentation (\<lambda>g img msk. ((img\<lparr>buf := rev (buf img)\<rparr>, msk\<lparr>buf := rev (buf msk)\<rparr>), Suc g)) nat False (0::nat) (\<lparr>shape = [2, 2, 1, 2], buf = [1, 2, 3, 4, 5, 6, 7, 8::int]\<rparr>, \<lparr>shape = [2, 2, 1, 2], buf = [10, 11, 12, 13, 14, 15, 16, 17::int]\<rparr>) = Inl (ValueError dims_message)"
proof -
  have h1: "shape \<lparr>shape = [2, 2, 1, 2], buf = [1, 2, 3, 4, 5, 6, 7, 8::int]\<rparr> = 2 # 2 # [1, 2]" by simp
  have h2: "shape \<lparr>shape = [2, 2, 1, 2], buf = [10, 11, 12, 13, 14, 15, 16, 17::int]\<rparr> = 2 # 2 # [1, 2]" by simp
  have h3: "wf_array \<lparr>shape = [2, 2, 1, 2], buf = [1, 2, 3, 4, 5, 6, 7, 8::int]\<rparr>" by (simp add: wf_array_def)
  have h4: "wf_array \<lparr>shape = [2, 2, 1, 2], buf = [10, 11, 12, 13, 14, 15, 16, 17::int]\<rparr>" by (simp add: wf_array_def)
  have h5: "2 \<le> length [1, 2::nat]" by simp
  have h6: "1 \<le> (2::nat)" by simp
  have h7: "shape_preserving (\<lambda>g img msk. ((img\<lparr>buf := rev (buf img)\<rparr>, msk\<lparr>buf := rev (buf msk)\<rparr>), Suc g))"
    by (simp add: shape_preserving_def)
  have h8: "False \<longrightarrow> 2 \<le> (2::nat)" by simp
  have h9: "1 \<le> (2::nat)" by simp
  have h10: "1 < (2::nat)" by simp
  show ?thesis
    using augmentation_single_mask_channel [OF h1 h2 h3 h4 h5 h6 h7 h8 h9,
        where seed = nat and ?g0.0 = 0] h10
    by blast
qed

end
